theory Spec2Isabelle
  imports Complex_Main "HOL-Library.Log_Nat"
begin

section \<open>The particle field animator of \<open>portofolio/js/script.js\<close>\<close>

text \<open>
  The script draws a field of particles on the canvas element \<open>particles\<close>. JavaScript
  numbers are modelled as \<open>real\<close>: in the motion and the drawing of the particles the
  geometry and the bounds are those of exact arithmetic; in \<open>resize\<close>, where a count or
  a branch hangs on the last bit of a product, every operation is rounded to the nearest
  double. \<open>null\<close> is modelled as \<open>None\<close>, the closure variables of the animator as one record
  that every function takes and returns, and \<open>Math.random\<close> as a sequence of draws read at
  an index that the state carries. What is drawn on the canvas is returned as a list of
  drawing commands.
\<close>

subsection \<open>Data\<close>

text \<open>One slot of \<open>particles\<close>, as \<open>createParticle\<close> builds it.\<close>

record particle =
  p_x :: real
  p_y :: real
  p_size :: real
  p_vx :: real
  p_vy :: real
  p_alpha :: real

text \<open>The object \<open>CONFIG\<close>; \<open>color\<close> is the triple \<open>(r, g, b)\<close>.\<close>

record config =
  baseCount :: real
  connectDistance :: real
  maxSize :: real
  minSize :: real
  speedRange :: real
  color :: "real \<times> real \<times> real"
  lineAlpha :: real
  particleAlpha :: real
  mouseRadius :: real
  repel :: bool

definition CONFIG :: config where
  "CONFIG = \<lparr> baseCount = 60, connectDistance = 120, maxSize = 2.2, minSize = 0.8,
     speedRange = 0.6, color = (0, 245, 255), lineAlpha = 0.10, particleAlpha = 0.7,
     mouseRadius = 120, repel = True \<rparr>"

text \<open>The object \<open>mouse\<close>.\<close>

record mouse_state =
  m_x :: "real option"
  m_y :: "real option"
  m_vx :: real
  m_vy :: real
  m_lastX :: "real option"
  m_lastY :: "real option"
  m_active :: bool

text \<open>A fill or stroke style: an \<open>rgba(...)\<close> colour, or the radial gradient of the halo
  with its two circles and its colour stops.\<close>

datatype paint =
  Rgba real real real real
  | RadialGradient real real real real real real "(real \<times> real \<times> real \<times> real \<times> real) list"

text \<open>What the 2D context is asked to do: \<open>clearRect\<close>; a stroked segment (style, line
  width, both ends); a filled full circle (style, centre, radius).\<close>

datatype draw =
  ClearRect real real real real
  | StrokeLine paint real real real real real
  | FillArc paint real real real

text \<open>The callbacks handed to \<open>requestAnimationFrame\<close>: \<open>loop\<close> itself, and the arrow
  function of \<open>onMouseMove\<close> that resets \<open>rafMouse\<close>.\<close>

datatype callback = LoopCallback | MouseCallback

text \<open>
  The variables the animator's closure holds, with the part of the host they touch:
  the canvas's backing size and the scale of the context's transform (set by \<open>resize\<close>),
  the callbacks waiting for the next animation frame and the last handle that
  \<open>requestAnimationFrame\<close> returned, and the index of the next draw of \<open>Math.random\<close>.
\<close>

record animator =
  particles :: "particle list"
  width :: real
  height :: real
  devicePixelRatio :: real
  mouse :: mouse_state
  isRunning :: bool
  animId :: "nat option"
  rafMouse :: "nat option"
  canvasWidth :: int
  canvasHeight :: int
  ctxScale :: real
  rafQueue :: "callback list"
  rafHandle :: nat
  randomIndex :: nat

text \<open>What \<open>resize\<close> reads from the host: the canvas's layout box and the window's inner
  size, all non-negative integers.\<close>

record viewport =
  clientWidth :: nat
  clientHeight :: nat
  innerWidth :: nat
  innerHeight :: nat

subsection \<open>JavaScript operators\<close>

text \<open>\<open>a || b\<close> on numbers: \<open>b\<close> when \<open>a\<close> is zero.\<close>

definition js_or :: "real \<Rightarrow> real \<Rightarrow> real" where
  "js_or a b = (if a = 0 then b else a)"

text \<open>A number read from a field that may hold \<open>null\<close>: in arithmetic \<open>null\<close> is 0.\<close>

definition to_number :: "real option \<Rightarrow> real" where
  "to_number v = (case v of None \<Rightarrow> 0 | Some r \<Rightarrow> r)"

text \<open>\<open>Math.round\<close>: the nearest integer, a half rounded up.\<close>

definition math_round :: "real \<Rightarrow> int" where
  "math_round r = \<lfloor>r + 1 / 2\<rfloor>"

text \<open>
  The arithmetic of doubles, for numbers whose magnitude is far from overflow and from
  the subnormal range (those of \<open>resize\<close> are): a result is rounded to 53 significant
  bits, to the nearest and at a tie to the even one. \<open>roundHalfEven\<close> rounds to an
  integer in that way; \<open>binaryExponent a\<close> is the \<open>e\<close> with \<open>2\<^sup>e \<le> a < 2\<^sup>e\<^sup>+\<^sup>1\<close> for a
  positive \<open>a\<close>; \<open>fl\<close> is the rounding, also the double that a decimal literal stands for;
  \<open>dmul\<close> and \<open>ddiv\<close> are \<open>*\<close> and \<open>/\<close>.
\<close>

definition roundHalfEven :: "real \<Rightarrow> int" where
  "roundHalfEven y =
     (let f = \<lfloor>y\<rfloor>; r = y - of_int f
      in if r < 1 / 2 then f else if 1 / 2 < r then f + 1 else if even f then f else f + 1)"

definition binaryExponent :: "real \<Rightarrow> int" where
  "binaryExponent a = (if 1 \<le> a then bitlen \<lfloor>a\<rfloor> - 1 else - bitlen (\<lceil>1 / a\<rceil> - 1))"

definition fl :: "real \<Rightarrow> real" where
  "fl x =
     (if x = 0 then 0
      else (let a = \<bar>x\<bar>; u = 2 powi (binaryExponent a - 52)
            in sgn x * (of_int (roundHalfEven (a / u)) * u)))"

definition dmul :: "real \<Rightarrow> real \<Rightarrow> real" where
  "dmul a b = fl (a * b)"

definition ddiv :: "real \<Rightarrow> real \<Rightarrow> real" where
  "ddiv a b = fl (a / b)"

text \<open>\<open>xs.slice(0, n)\<close>: a negative end counts from the end of the array.\<close>

definition slice0 :: "'a list \<Rightarrow> int \<Rightarrow> 'a list" where
  "slice0 xs n =
     (let len = int (length xs);
          e = (if n < 0 then max (len + n) 0 else min n len)
      in take (nat e) xs)"

text \<open>\<open>requestAnimationFrame(cb)\<close>: the callback waits for the next frame; the handle
  returned is a fresh positive number.\<close>

definition requestAnimationFrame :: "callback \<Rightarrow> animator \<Rightarrow> nat \<times> animator" where
  "requestAnimationFrame cb s =
     (let h = rafHandle s + 1
      in (h, s\<lparr>rafQueue := rafQueue s @ [cb], rafHandle := h\<rparr>))"

subsection \<open>Creating particles and \<open>resize\<close>\<close>

definition rand :: "real \<Rightarrow> real \<Rightarrow> real \<Rightarrow> real" where
  "rand r lo hi = r * (hi - lo) + lo"

text \<open>\<open>createParticle\<close> draws six numbers, in the order of the object literal's fields.\<close>

definition createParticle :: "config \<Rightarrow> real \<Rightarrow> real \<Rightarrow> (nat \<Rightarrow> real) \<Rightarrow> nat \<Rightarrow> particle" where
  "createParticle cfg w h rng k =
     \<lparr> p_x = rng k * w,
       p_y = rng (k + 1) * h,
       p_size = rand (rng (k + 2)) (minSize cfg) (maxSize cfg),
       p_vx = (rng (k + 3) - 0.5) * speedRange cfg,
       p_vy = (rng (k + 4) - 0.5) * speedRange cfg,
       p_alpha = rand (rng (k + 5)) 0.4 (particleAlpha cfg) \<rparr>"

text \<open>The loop \<open>for (let i = ...; i < count; i++) particles.push(createParticle())\<close>.\<close>

function pushParticles ::
  "config \<Rightarrow> (nat \<Rightarrow> real) \<Rightarrow> int \<Rightarrow> int \<Rightarrow> animator \<Rightarrow> animator" where
  "pushParticles cfg rng i count s =
     (if i < count
      then pushParticles cfg rng (i + 1) count
             (s\<lparr>particles := particles s @ [createParticle cfg (width s) (height s) rng (randomIndex s)],
                randomIndex := randomIndex s + 6\<rparr>)
      else s)"
  by pat_completeness auto
termination
  by (relation "measure (\<lambda>(cfg, rng, i, count, s). nat (count - i))") auto

declare pushParticles.simps [simp del]

text \<open>The count that \<open>resize\<close> aims at, from the area of the surface.\<close>

definition targetCount :: "config \<Rightarrow> real \<Rightarrow> int" where
  "targetCount cfg area =
     (let refArea = dmul 1366 768
      in math_round (dmul (baseCount cfg) (max 0.5 (min (fl 2.2) (ddiv area refArea)))))"

text \<open>The three branches at the end of \<open>resize\<close>, for the computed \<open>count\<close>.\<close>

definition reconcile :: "config \<Rightarrow> (nat \<Rightarrow> real) \<Rightarrow> int \<Rightarrow> animator \<Rightarrow> animator" where
  "reconcile cfg rng count s =
     (if length (particles s) = 0 then pushParticles cfg rng 0 count s
      else if int (length (particles s)) < count
        then pushParticles cfg rng (int (length (particles s))) count s
      else if real (length (particles s)) > dmul (real_of_int count) (fl 1.4)
        then s\<lparr>particles := slice0 (particles s) count\<rparr>
      else s)"

definition resize :: "config \<Rightarrow> (nat \<Rightarrow> real) \<Rightarrow> viewport \<Rightarrow> animator \<Rightarrow> animator" where
  "resize cfg rng vp s =
     (let w = js_or (real (clientWidth vp)) (real (innerWidth vp));
          h = js_or (real (clientHeight vp)) (real (innerHeight vp));
          s1 = s\<lparr>width := w, height := h,
                 canvasWidth := math_round (dmul w (devicePixelRatio s)),
                 canvasHeight := math_round (dmul h (devicePixelRatio s)),
                 ctxScale := devicePixelRatio s\<rparr>;
          area = dmul w h
      in reconcile cfg rng (targetCount cfg area) s1)"

subsection \<open>\<open>update\<close>\<close>

text \<open>The body of the loop of \<open>update\<close>, one definition for each of its commented
  parts. \<open>// apply velocity\<close>:\<close>

definition applyVelocity :: "particle \<Rightarrow> particle" where
  "applyVelocity p = p\<lparr>p_x := p_x p + p_vx p, p_y := p_y p + p_vy p\<rparr>"

text \<open>\<open>// wrap around edges (smooth)\<close>: four tests, one after the other.\<close>

definition wrapEdges :: "real \<Rightarrow> real \<Rightarrow> particle \<Rightarrow> particle" where
  "wrapEdges w h p =
     (let p1 = (if p_x p < - 10 then p\<lparr>p_x := w + 10\<rparr> else p);
          p2 = (if p_x p1 > w + 10 then p1\<lparr>p_x := - 10\<rparr> else p1);
          p3 = (if p_y p2 < - 10 then p2\<lparr>p_y := h + 10\<rparr> else p2);
          p4 = (if p_y p3 > h + 10 then p3\<lparr>p_y := - 10\<rparr> else p3)
      in p4)"

text \<open>\<open>// mouse interaction\<close>: the distance to the pointer, the force step (repel or
  attract) and the clamp of the velocity.\<close>

definition mouseDist :: "mouse_state \<Rightarrow> particle \<Rightarrow> real" where
  "mouseDist m p =
     (let dx = p_x p - to_number (m_x m);
          dy = p_y p - to_number (m_y m)
      in sqrt (dx * dx + dy * dy))"

definition applyForce :: "config \<Rightarrow> mouse_state \<Rightarrow> particle \<Rightarrow> particle" where
  "applyForce cfg m p =
     (let dx = p_x p - to_number (m_x m);
          dy = p_y p - to_number (m_y m);
          dist = sqrt (dx * dx + dy * dy);
          force = (1 - dist / mouseRadius cfg) * 0.6;
          dirX = dx / js_or dist 1;
          dirY = dy / js_or dist 1
      in if repel cfg
         then p\<lparr>p_vx := p_vx p + dirX * force, p_vy := p_vy p + dirY * force\<rparr>
         else p\<lparr>p_vx := p_vx p - dirX * force * 0.15, p_vy := p_vy p - dirY * force * 0.15\<rparr>)"

definition clampVelocity :: "config \<Rightarrow> particle \<Rightarrow> particle" where
  "clampVelocity cfg p =
     (let vmax = speedRange cfg * 2.2
      in p\<lparr>p_vx := max (- vmax) (min vmax (p_vx p)),
           p_vy := max (- vmax) (min vmax (p_vy p))\<rparr>)"

definition mouseInteraction :: "config \<Rightarrow> mouse_state \<Rightarrow> particle \<Rightarrow> particle" where
  "mouseInteraction cfg m p =
     (if m_active m \<and> m_x m \<noteq> None
      then (if mouseDist m p < mouseRadius cfg
            then clampVelocity cfg (applyForce cfg m p)
            else p)
      else p)"

text \<open>\<open>// gentle velocity damping\<close>.\<close>

definition damping :: "particle \<Rightarrow> particle" where
  "damping p = p\<lparr>p_vx := p_vx p * 0.995, p_vy := p_vy p * 0.995\<rparr>"

definition updateParticle :: "config \<Rightarrow> real \<Rightarrow> real \<Rightarrow> mouse_state \<Rightarrow> particle \<Rightarrow> particle" where
  "updateParticle cfg w h m p =
     damping (mouseInteraction cfg m (wrapEdges w h (applyVelocity p)))"

definition update :: "config \<Rightarrow> animator \<Rightarrow> animator" where
  "update cfg s =
     s\<lparr>particles := map (updateParticle cfg (width s) (height s) (mouse s)) (particles s)\<rparr>"

subsection \<open>\<open>render\<close>\<close>

definition rgba :: "config \<Rightarrow> real \<Rightarrow> paint" where
  "rgba cfg a = (case color cfg of (r, g, b) \<Rightarrow> Rgba r g b a)"

definition clear :: "animator \<Rightarrow> draw" where
  "clear s = ClearRect 0 0 (width s) (height s)"

definition drawParticle :: "config \<Rightarrow> particle \<Rightarrow> draw" where
  "drawParticle cfg p = FillArc (rgba cfg (p_alpha p)) (p_x p) (p_y p) (p_size p)"

definition drawLine :: "config \<Rightarrow> particle \<Rightarrow> particle \<Rightarrow> real \<Rightarrow> draw" where
  "drawLine cfg p1 p2 d =
     (let alpha = max 0 (lineAlpha cfg * (1 - d / connectDistance cfg))
      in StrokeLine (rgba cfg alpha) 0.5 (p_x p1) (p_y p1) (p_x p2) (p_y p2))"

text \<open>The distance that the inner loop of \<open>render\<close> computes for \<open>a\<close> and \<open>b\<close>.\<close>

definition pairDist :: "particle \<Rightarrow> particle \<Rightarrow> real" where
  "pairDist a b =
     (let dx = p_x a - p_x b; dy = p_y a - p_y b
      in sqrt (dx * dx + dy * dy))"

text \<open>The inner loop, over the particles \<open>b\<close> that follow \<open>a\<close> in the array, and the outer
  loop over \<open>a\<close>.\<close>

fun connectFrom :: "config \<Rightarrow> particle \<Rightarrow> particle list \<Rightarrow> draw list" where
  "connectFrom cfg a [] = []"
| "connectFrom cfg a (b # bs) =
     (if pairDist a b < connectDistance cfg then [drawLine cfg a b (pairDist a b)] else [])
     @ connectFrom cfg a bs"

fun connections :: "config \<Rightarrow> particle list \<Rightarrow> draw list" where
  "connections cfg [] = []"
| "connections cfg (a # rest) = connectFrom cfg a rest @ connections cfg rest"

definition mouseHalo :: "config \<Rightarrow> mouse_state \<Rightarrow> draw list" where
  "mouseHalo cfg m =
     (if m_active m \<and> m_x m \<noteq> None
      then (let mx = to_number (m_x m); my = to_number (m_y m);
                grad = RadialGradient mx my 0 mx my (min (mouseRadius cfg * 1.2) 240)
                         [(0, fst (color cfg), fst (snd (color cfg)), snd (snd (color cfg)), 0.08),
                          (1, 0, 0, 0, 0)]
            in [FillArc grad mx my (mouseRadius cfg * 1.2)])
      else [])"

definition render :: "config \<Rightarrow> animator \<Rightarrow> draw list" where
  "render cfg s =
     clear s # connections cfg (particles s)
       @ map (drawParticle cfg) (particles s)
       @ mouseHalo cfg (mouse s)"

subsection \<open>The frame loop and the event handlers\<close>

text \<open>\<open>loop\<close> returns the new state and what it drew.\<close>

definition loop :: "config \<Rightarrow> animator \<Rightarrow> animator \<times> draw list" where
  "loop cfg s =
     (if \<not> isRunning s then (s, [])
      else (let s1 = update cfg s;
                d = render cfg s1;
                (h, s2) = requestAnimationFrame LoopCallback s1
            in (s2\<lparr>animId := Some h\<rparr>, d)))"

text \<open>The \<open>visibilitychange\<close> listener; the argument is
  \<open>document.visibilityState === 'visible'\<close>.\<close>

definition onVisibilityChange :: "config \<Rightarrow> bool \<Rightarrow> animator \<Rightarrow> animator \<times> draw list" where
  "onVisibilityChange cfg visible s =
     (let s1 = s\<lparr>isRunning := visible\<rparr>
      in if isRunning s1 then loop cfg s1 else (s1, []))"

text \<open>\<open>onMouseMove\<close>, for an event at \<open>(clientX, clientY)\<close> and a bounding rectangle of
  the canvas starting at \<open>(rectLeft, rectTop)\<close>.\<close>

definition onMouseMove :: "real \<Rightarrow> real \<Rightarrow> real \<Rightarrow> real \<Rightarrow> animator \<Rightarrow> animator" where
  "onMouseMove clientX clientY rectLeft rectTop s =
     (let m1 = (mouse s)\<lparr>m_active := True, m_x := Some (clientX - rectLeft), m_y := Some (clientY - rectTop)\<rparr>;
          m2 = (if m_lastX m1 \<noteq> None
                then m1\<lparr>m_vx := to_number (m_x m1) - to_number (m_lastX m1),
                        m_vy := to_number (m_y m1) - to_number (m_lastY m1)\<rparr>
                else m1);
          m3 = m2\<lparr>m_lastX := m_x m2, m_lastY := m_y m2\<rparr>;
          s1 = s\<lparr>mouse := m3\<rparr>
      in if rafMouse s1 = None
         then (let (h, s2) = requestAnimationFrame MouseCallback s1 in s2\<lparr>rafMouse := Some h\<rparr>)
         else s1)"

definition onMouseLeave :: "animator \<Rightarrow> animator" where
  "onMouseLeave s =
     s\<lparr>mouse := (mouse s)\<lparr>m_active := False, m_x := None, m_y := None,
                          m_lastX := None, m_lastY := None\<rparr>\<rparr>"

text \<open>\<open>onTouchMove\<close>: \<open>e.touches\<close> may be missing or empty; its first touch is handed to
  \<open>onMouseMove\<close>.\<close>

definition onTouchMove :: "(real \<times> real) list option \<Rightarrow> real \<Rightarrow> real \<Rightarrow> animator \<Rightarrow> animator" where
  "onTouchMove touches rectLeft rectTop s =
     (case touches of
        None \<Rightarrow> s
      | Some [] \<Rightarrow> s
      | Some ((clientX, clientY) # _) \<Rightarrow> onMouseMove clientX clientY rectLeft rectTop s)"

definition onTouchEnd :: "animator \<Rightarrow> animator" where
  "onTouchEnd s = onMouseLeave s"

text \<open>One callback of the animation frame queue.\<close>

definition runCallback :: "config \<Rightarrow> animator \<times> draw list \<Rightarrow> callback \<Rightarrow> animator \<times> draw list" where
  "runCallback cfg acc cb =
     (case cb of
        LoopCallback \<Rightarrow> (let (s1, d) = loop cfg (fst acc) in (s1, snd acc @ d))
      | MouseCallback \<Rightarrow> ((fst acc)\<lparr>rafMouse := None\<rparr>, snd acc))"

text \<open>An animation frame: the host runs the callbacks that were waiting, in the order of
  their requests; what they request waits for the frame after.\<close>

definition animationFrame :: "config \<Rightarrow> animator \<Rightarrow> animator \<times> draw list" where
  "animationFrame cfg s = foldl (runCallback cfg) (s\<lparr>rafQueue := []\<rparr>, []) (rafQueue s)"

text \<open>What the host can deliver to a started animator. \<open>ResizeTimeout\<close> is the timer of
  the debounced \<open>resize\<close> listener running out.\<close>

datatype event =
  VisibilityChange bool
  | AnimationFrame
  | MouseMove real real real real
  | MouseLeave
  | TouchMove "(real \<times> real) list option" real real
  | TouchEnd
  | ResizeTimeout viewport

fun step :: "config \<Rightarrow> (nat \<Rightarrow> real) \<Rightarrow> animator \<Rightarrow> event \<Rightarrow> animator \<times> draw list" where
  "step cfg rng s (VisibilityChange visible) = onVisibilityChange cfg visible s"
| "step cfg rng s AnimationFrame = animationFrame cfg s"
| "step cfg rng s (MouseMove clientX clientY rectLeft rectTop) = (onMouseMove clientX clientY rectLeft rectTop s, [])"
| "step cfg rng s MouseLeave = (onMouseLeave s, [])"
| "step cfg rng s (TouchMove touches rectLeft rectTop) = (onTouchMove touches rectLeft rectTop s, [])"
| "step cfg rng s TouchEnd = (onTouchEnd s, [])"
| "step cfg rng s (ResizeTimeout vp) = (resize cfg rng vp s, [])"

text \<open>A run: the events in order, the drawings of all steps one after the other.\<close>

fun run :: "config \<Rightarrow> (nat \<Rightarrow> real) \<Rightarrow> animator \<Rightarrow> event list \<Rightarrow> animator \<times> draw list" where
  "run cfg rng s [] = (s, [])"
| "run cfg rng s (e # es) =
     (let (s1, d1) = step cfg rng s e;
          (s2, d2) = run cfg rng s1 es
      in (s2, d1 @ d2))"

subsection \<open>Starting the animator\<close>

text \<open>The closure's variables before \<open>init\<close>, for the pixel ratio the window reports (0
  stands for a missing one) and the canvas's backing size.\<close>

definition initial :: "real \<Rightarrow> int \<Rightarrow> int \<Rightarrow> nat \<Rightarrow> animator" where
  "initial ratio cw ch k =
     \<lparr> particles = [], width = 0, height = 0,
       devicePixelRatio = max 1 (js_or ratio 1),
       mouse = \<lparr> m_x = None, m_y = None, m_vx = 0, m_vy = 0,
                 m_lastX = None, m_lastY = None, m_active = False \<rparr>,
       isRunning = True, animId = None, rafMouse = None,
       canvasWidth = cw, canvasHeight = ch, ctxScale = 1,
       rafQueue = [], rafHandle = 0, randomIndex = k \<rparr>"

text \<open>\<open>init\<close>: \<open>resize(); bind(); loop();\<close> (\<open>bind\<close> only attaches the listeners).\<close>

definition init :: "config \<Rightarrow> (nat \<Rightarrow> real) \<Rightarrow> viewport \<Rightarrow> animator \<Rightarrow> animator \<times> draw list" where
  "init cfg rng vp s = loop cfg (resize cfg rng vp s)"

subsection \<open>The specification's formula, and names for the proofs\<close>

text \<open>The specification's target count is \<open>round(baseCount \<times> clamp(area / referenceArea,
  0.5, 2.2))\<close>, for the reference area \<open>1366 \<times> 768\<close>.\<close>

definition clamp :: "real \<Rightarrow> real \<Rightarrow> real \<Rightarrow> real" where
  "clamp v lo hi = (if v < lo then lo else if hi < v then hi else v)"

definition exactTarget :: "real \<Rightarrow> real \<Rightarrow> real" where
  "exactTarget base area = base * clamp (area / (1366 * 768)) 0.5 2.2"

definition specTargetCount :: "real \<Rightarrow> real \<Rightarrow> int" where
  "specTargetCount base area = round (exactTarget base area)"

text \<open>A value that is farther than \<open>10\<^sup>-\<^sup>1\<^sup>3\<close> from every half-integer: rounding it and
  rounding anything that near to it give the same integer.\<close>

definition awayFromHalf :: "real \<Rightarrow> bool" where
  "awayFromHalf v = (\<lfloor>v - 1 / 10 ^ 13 + 1 / 2\<rfloor> = \<lfloor>v + 1 / 10 ^ 13 + 1 / 2\<rfloor>)"

text \<open>The logical size that \<open>resize\<close> computes from the host's.\<close>

definition resizedWidth :: "viewport \<Rightarrow> real" where
  "resizedWidth vp = js_or (real (clientWidth vp)) (real (innerWidth vp))"

definition resizedHeight :: "viewport \<Rightarrow> real" where
  "resizedHeight vp = js_or (real (clientHeight vp)) (real (innerHeight vp))"

definition resizedArea :: "viewport \<Rightarrow> real" where
  "resizedArea vp = dmul (resizedWidth vp) (resizedHeight vp)"

text \<open>The particles that \<open>n\<close> calls of \<open>createParticle\<close> return, the first one reading
  \<open>Math.random\<close> at index \<open>k\<close>.\<close>

definition freshParticles ::
  "config \<Rightarrow> real \<Rightarrow> real \<Rightarrow> (nat \<Rightarrow> real) \<Rightarrow> nat \<Rightarrow> nat \<Rightarrow> particle list" where
  "freshParticles cfg w h rng k n = map (\<lambda>j. createParticle cfg w h rng (k + 6 * j)) [0..<n]"

text \<open>Sample inputs: the reference surface and three others (1434 by 768, 1366 by 576,
  1366 by 1568), a random source that always draws one half, and a field of \<open>n\<close>
  particles.\<close>

definition refViewport :: viewport where
  "refViewport = \<lparr> clientWidth = 1366, clientHeight = 768, innerWidth = 0, innerHeight = 0 \<rparr>"

definition wideViewport :: viewport where
  "wideViewport = \<lparr> clientWidth = 1434, clientHeight = 768, innerWidth = 0, innerHeight = 0 \<rparr>"

definition shortViewport :: viewport where
  "shortViewport = \<lparr> clientWidth = 1366, clientHeight = 576, innerWidth = 0, innerHeight = 0 \<rparr>"

definition tallViewport :: viewport where
  "tallViewport = \<lparr> clientWidth = 1366, clientHeight = 1568, innerWidth = 0, innerHeight = 0 \<rparr>"

definition halfDraws :: "nat \<Rightarrow> real" where
  "halfDraws n = 1 / 2"

definition field :: "nat \<Rightarrow> animator" where
  "field n =
     (initial 1 300 150 0)\<lparr>particles := replicate n (createParticle CONFIG 1366 768 halfDraws 0)\<rparr>"

subsection \<open>The invariants, and the runs they are stated for\<close>

text \<open>A particle within the margin of 10 around a surface of the given size.\<close>

definition inBounds :: "real \<Rightarrow> real \<Rightarrow> particle \<Rightarrow> bool" where
  "inBounds w h p = (- 10 \<le> p_x p \<and> p_x p \<le> w + 10 \<and> - 10 \<le> p_y p \<and> p_y p \<le> h + 10)"

definition fieldInBounds :: "animator \<Rightarrow> bool" where
  "fieldInBounds s = list_all (inBounds (width s) (height s)) (particles s)"

definition surfaceOk :: "animator \<Rightarrow> bool" where
  "surfaceOk s = (0 \<le> width s \<and> 0 \<le> height s)"

definition wrapInvariant :: "animator \<Rightarrow> bool" where
  "wrapInvariant s = (surfaceOk s \<and> fieldInBounds s)"

text \<open>Both components of the velocity within \<open>2.2 \<times> speedRange\<close>.\<close>

definition velocityBounded :: "config \<Rightarrow> particle \<Rightarrow> bool" where
  "velocityBounded cfg p =
     (\<bar>p_vx p\<bar> \<le> 2.2 * speedRange cfg \<and> \<bar>p_vy p\<bar> \<le> 2.2 * speedRange cfg)"

definition fieldVelocityBounded :: "config \<Rightarrow> animator \<Rightarrow> bool" where
  "fieldVelocityBounded cfg s = list_all (velocityBounded cfg) (particles s)"

text \<open>The particle takes the branch of \<open>update\<close> that applies the pointer's force: the
  pointer is active and the particle, moved and wrapped, is nearer than \<open>mouseRadius\<close>.\<close>

definition inPointerBranch :: "config \<Rightarrow> real \<Rightarrow> real \<Rightarrow> mouse_state \<Rightarrow> particle \<Rightarrow> bool" where
  "inPointerBranch cfg w h m p =
     (m_active m \<and> m_x m \<noteq> None \<and> mouseDist m (wrapEdges w h (applyVelocity p)) < mouseRadius cfg)"

text \<open>What \<open>Math.random\<close> promises: every draw is in \<open>[0, 1)\<close>.\<close>

definition uniformDraws :: "(nat \<Rightarrow> real) \<Rightarrow> bool" where
  "uniformDraws rng = (\<forall>n. 0 \<le> rng n \<and> rng n < 1)"

text \<open>The events that leave the surface's size alone: all but a resize.\<close>

fun keepsSurface :: "event \<Rightarrow> bool" where
  "keepsSurface (ResizeTimeout vp) = False"
| "keepsSurface e = True"

text \<open>The animator after \<open>init\<close>.\<close>

definition started ::
  "config \<Rightarrow> (nat \<Rightarrow> real) \<Rightarrow> viewport \<Rightarrow> real \<Rightarrow> int \<Rightarrow> int \<Rightarrow> nat \<Rightarrow> animator" where
  "started cfg rng vp ratio cw ch k = fst (init cfg rng vp (initial ratio cw ch k))"

text \<open>More sample inputs: a pointer that is away, a pointer resting at a point, and a
  particle with a given position and velocity.\<close>

definition idleMouse :: mouse_state where
  "idleMouse = \<lparr> m_x = None, m_y = None, m_vx = 0, m_vy = 0,
                 m_lastX = None, m_lastY = None, m_active = False \<rparr>"

definition pointerAt :: "real \<Rightarrow> real \<Rightarrow> mouse_state" where
  "pointerAt a b = \<lparr> m_x = Some a, m_y = Some b, m_vx = 0, m_vy = 0,
                     m_lastX = Some a, m_lastY = Some b, m_active = True \<rparr>"

definition particleAt :: "real \<Rightarrow> real \<Rightarrow> real \<Rightarrow> real \<Rightarrow> particle" where
  "particleAt a b va vb = \<lparr> p_x = a, p_y = b, p_size = 1, p_vx = va, p_vy = vb, p_alpha = 0.5 \<rparr>"

subsection \<open>The pointer's force\<close>

text \<open>The strength that \<open>update\<close> computes at the distance \<open>d\<close>, the vector that its
  force step adds to a particle's velocity, and the length of a vector.\<close>

definition forceStrength :: "config \<Rightarrow> real \<Rightarrow> real" where
  "forceStrength cfg d = (1 - d / mouseRadius cfg) * 0.6"

definition forceAdded :: "config \<Rightarrow> mouse_state \<Rightarrow> particle \<Rightarrow> real \<times> real" where
  "forceAdded cfg m q = (p_vx (applyForce cfg m q) - p_vx q, p_vy (applyForce cfg m q) - p_vy q)"

definition magnitude :: "real \<times> real \<Rightarrow> real" where
  "magnitude v = sqrt (fst v * fst v + snd v * snd v)"

text \<open>The first particle of the animator started on the reference surface with the
  draws \<open>halfDraws\<close>, after the update of \<open>init\<close>.\<close>

definition centreParticle :: particle where
  "centreParticle = updateParticle CONFIG 1366 768 idleMouse (createParticle CONFIG 1366 768 halfDraws 0)"

subsection \<open>The lines of a rendering\<close>

text \<open>The stroked segments among drawing commands; the pairs \<open>(i, j)\<close> in the order in
  which the two loops of \<open>render\<close> visit them; the line of the specification, with the
  opacity \<open>lineAlpha \<times> (1 - dist / connectDistance)\<close>; and a sample field of three
  particles.\<close>

fun isLine :: "draw \<Rightarrow> bool" where
  "isLine (StrokeLine c lw x1 y1 x2 y2) = True"
| "isLine d = False"

definition indexPairs :: "nat \<Rightarrow> (nat \<times> nat) list" where
  "indexPairs n = concat (map (\<lambda>i. map (Pair i) [i + 1..<n]) [0..<n])"

definition lineBetween :: "config \<Rightarrow> particle \<Rightarrow> particle \<Rightarrow> draw" where
  "lineBetween cfg a b =
     StrokeLine (rgba cfg (lineAlpha cfg * (1 - pairDist a b / connectDistance cfg))) 0.5
       (p_x a) (p_y a) (p_x b) (p_y b)"

definition threeParticles :: animator where
  "threeParticles =
     (initial 1 300 150 0)\<lparr>particles := [particleAt 0 0 0 0, particleAt 0 120 0 0, particleAt 0 0 1 1]\<rparr>"

subsection \<open>The pointer's velocity\<close>

text \<open>The state with the derived velocity of the pointer set to 0: two states with the
  same image differ at most in \<open>mouse.vx\<close> and \<open>mouse.vy\<close>. And a sample state whose
  pointer has the given velocity.\<close>

definition eraseVelocity :: "animator \<Rightarrow> animator" where
  "eraseVelocity s = s\<lparr>mouse := (mouse s)\<lparr>m_vx := 0, m_vy := 0\<rparr>\<rparr>"

definition pointerField :: "real \<Rightarrow> real \<Rightarrow> animator" where
  "pointerField va vb = threeParticles\<lparr>mouse := (pointerAt 1 1)\<lparr>m_vx := va, m_vy := vb\<rparr>\<rparr>"

subsection \<open>Pausing\<close>

text \<open>The events that do not make the page visible again; a paused animator with given
  particles and surface; and a paused animator with no \<open>loop\<close> callback waiting.\<close>

fun notResume :: "event \<Rightarrow> bool" where
  "notResume (VisibilityChange visible) = (\<not> visible)"
| "notResume e = True"

definition pausedWith :: "particle list \<Rightarrow> real \<Rightarrow> real \<Rightarrow> animator \<Rightarrow> bool" where
  "pausedWith ps w h s = (\<not> isRunning s \<and> particles s = ps \<and> width s = w \<and> height s = h)"

definition loopStopped :: "animator \<Rightarrow> bool" where
  "loopStopped s = (\<not> isRunning s \<and> LoopCallback \<notin> set (rafQueue s))"

subsection \<open>The script's start\<close>

text \<open>The error of calling a method on \<open>null\<close>.\<close>

datatype js_error = TypeError

text \<open>What the script finds on the page: the element \<open>particles\<close> (its backing width and
  height), if there is one; the sizes that \<open>resize\<close> reads; and the window's pixel ratio.\<close>

record host =
  particlesCanvas :: "(int \<times> int) option"
  hostViewport :: viewport
  windowPixelRatio :: real

text \<open>The first particle engine of the script (\<open>PARTICLES WITH LINES\<close>): a slot of
  \<open>particlesArray\<close>, \<open>initParticles\<close>, the motion of one particle in \<open>animateParticles\<close>,
  \<open>connectParticles\<close> (whose inner loop starts at the outer particle itself), and one
  call of \<open>animateParticles\<close>.\<close>

record particle1 =
  q_x :: real
  q_y :: real
  q_size :: real
  q_speedX :: real
  q_speedY :: real

definition initParticles :: "nat \<Rightarrow> nat \<Rightarrow> (nat \<Rightarrow> real) \<Rightarrow> nat \<Rightarrow> particle1 list" where
  "initParticles iw ih rng k =
     (let cw = real iw; ch = real ih;
          count = \<lfloor>cw * ch / 90000\<rfloor>
      in map (\<lambda>i. \<lparr> q_x = rng (k + 5 * i) * cw,
                    q_y = rng (k + 5 * i + 1) * ch,
                    q_size = rng (k + 5 * i + 2) * 2 + 1,
                    q_speedX = (rng (k + 5 * i + 3) - 0.5) * 0.5,
                    q_speedY = (rng (k + 5 * i + 4) - 0.5) * 0.5 \<rparr>)
           [0..<nat (max 40 count)])"

definition moveParticle1 :: "real \<Rightarrow> real \<Rightarrow> particle1 \<Rightarrow> particle1" where
  "moveParticle1 cw ch p =
     (let p1 = p\<lparr>q_x := q_x p + q_speedX p\<rparr>;
          p2 = p1\<lparr>q_y := q_y p1 + q_speedY p1\<rparr>;
          p3 = (if q_x p2 < 0 then p2\<lparr>q_x := cw\<rparr> else p2);
          p4 = (if q_x p3 > cw then p3\<lparr>q_x := 0\<rparr> else p3);
          p5 = (if q_y p4 < 0 then p4\<lparr>q_y := ch\<rparr> else p4);
          p6 = (if q_y p5 > ch then p5\<lparr>q_y := 0\<rparr> else p5)
      in p6)"

fun connectFrom1 :: "particle1 \<Rightarrow> particle1 list \<Rightarrow> draw list" where
  "connectFrom1 a [] = []"
| "connectFrom1 a (b # bs) =
     (let dx = q_x a - q_x b; dy = q_y a - q_y b;
          d = sqrt (dx * dx + dy * dy)
      in (if d < 120 then [StrokeLine (Rgba 0 245 255 0.1) 0.5 (q_x a) (q_y a) (q_x b) (q_y b)] else []))
     @ connectFrom1 a bs"

fun connectParticles :: "particle1 list \<Rightarrow> draw list" where
  "connectParticles [] = []"
| "connectParticles (a # rest) = connectFrom1 a (a # rest) @ connectParticles rest"

definition animateParticles :: "real \<Rightarrow> real \<Rightarrow> particle1 list \<Rightarrow> particle1 list \<times> draw list" where
  "animateParticles cw ch ps =
     (let dots = map (\<lambda>p. FillArc (Rgba 0 245 255 0.6) (q_x p) (q_y p) (q_size p)) ps;
          moved = map (moveParticle1 cw ch) ps
      in (moved, ClearRect 0 0 cw ch # dots @ connectParticles moved))"

text \<open>The top-level statements of the first engine: \<open>canvas.getContext('2d')\<close> is called
  on whatever \<open>getElementById\<close> returned, then \<open>initParticles()\<close> and
  \<open>animateParticles()\<close>. Its later frames are not followed here.\<close>

definition firstEngine :: "host \<Rightarrow> (nat \<Rightarrow> real) \<Rightarrow> js_error + particle1 list \<times> draw list" where
  "firstEngine hst rng =
     (case particlesCanvas hst of
        None \<Rightarrow> Inl TypeError
      | Some c \<Rightarrow>
          (let iw = innerWidth (hostViewport hst); ih = innerHeight (hostViewport hst)
           in Inr (animateParticles (real iw) (real ih) (initParticles iw ih rng 0))))"

text \<open>The function expression that holds the animator: it returns at once when the
  element is missing, and calls \<open>init\<close> otherwise.\<close>

definition particleSystem ::
  "host \<Rightarrow> (nat \<Rightarrow> real) \<Rightarrow> nat \<Rightarrow> (animator \<times> draw list) option" where
  "particleSystem hst rng k =
     (case particlesCanvas hst of
        None \<Rightarrow> None
      | Some (cw, ch) \<Rightarrow>
          Some (init CONFIG rng (hostViewport hst) (initial (windowPixelRatio hst) cw ch k)))"

text \<open>The script in its order: the first engine, then the animator. An error thrown at
  the top level ends the script. \<open>initParticles\<close> has set the backing size of the canvas
  to the window's inner size.\<close>

definition scriptParticles ::
  "host \<Rightarrow> (nat \<Rightarrow> real) \<Rightarrow>
     js_error + (particle1 list \<times> draw list) \<times> (animator \<times> draw list) option" where
  "scriptParticles hst rng =
     (case firstEngine hst rng of
        Inl e \<Rightarrow> Inl e
      | Inr e1 \<Rightarrow>
          (let sized = hst\<lparr>particlesCanvas :=
                 Some (int (innerWidth (hostViewport hst)), int (innerHeight (hostViewport hst)))\<rparr>
           in Inr (e1, particleSystem sized rng (5 * length (fst e1)))))"

text \<open>A page without the element.\<close>

definition barePage :: host where
  "barePage = \<lparr> particlesCanvas = None,
                hostViewport = \<lparr> clientWidth = 0, clientHeight = 0, innerWidth = 1366, innerHeight = 768 \<rparr>,
                windowPixelRatio = 1 \<rparr>"

section \<open>Properties\<close>

subsection \<open>Rounding to a double\<close>

lemma roundHalfEven_error: "\<bar>of_int (roundHalfEven y) - y\<bar> \<le> 1 / 2"
proof -
  have "of_int \<lfloor>y\<rfloor> \<le> y" and "y < of_int \<lfloor>y\<rfloor> + 1"
    by linarith+
  then show ?thesis
    by (auto simp add: roundHalfEven_def Let_def abs_le_iff)
qed

lemma roundHalfEven_of_int [simp]: "roundHalfEven (of_int n) = n"
  by (simp add: roundHalfEven_def)

lemma binaryExponent_bounds:
  assumes "0 < a"
  shows "2 powi binaryExponent a \<le> a" and "a < 2 powi (binaryExponent a + 1)"
proof -
  have "2 powi binaryExponent a \<le> a \<and> a < 2 powi (binaryExponent a + 1)"
  proof (cases "1 \<le> a")
    case True
    let ?m = "\<lfloor>a\<rfloor>"
    have m: "0 < ?m" using True by simp
    from bitlen_bounds [OF m] have lo: "2 ^ nat (bitlen ?m - 1) \<le> ?m" and hi: "?m < 2 ^ nat (bitlen ?m)"
      by simp_all
    have b: "1 \<le> bitlen ?m"
      using m by (simp add: bitlen_alt_def)
    have "real_of_int (2 ^ nat (bitlen ?m - 1)) \<le> real_of_int ?m"
      using lo by (simp only: of_int_le_iff)
    then have "(2::real) ^ nat (bitlen ?m - 1) \<le> a"
      by (simp add: le_floor_iff)
    moreover have "?m + 1 \<le> 2 ^ nat (bitlen ?m)"
      using hi by simp
    then have "real_of_int (?m + 1) \<le> real_of_int (2 ^ nat (bitlen ?m))"
      by (simp only: of_int_le_iff)
    then have "a < (2::real) ^ nat (bitlen ?m)"
      by (simp add: floor_less_iff) linarith
    ultimately show ?thesis
      using True b by (simp add: binaryExponent_def power_int_def)
  next
    case False
    let ?y = "1 / a"
    let ?k = "\<lceil>?y\<rceil> - 1"
    have y: "1 < ?y" using False assms by simp
    then have k: "0 < ?k" by simp
    from bitlen_bounds [OF k] have lo: "2 ^ nat (bitlen ?k - 1) \<le> ?k" and hi: "?k < 2 ^ nat (bitlen ?k)"
      by simp_all
    have b: "1 \<le> bitlen ?k"
      using k by (simp add: bitlen_alt_def)
    have "real_of_int (2 ^ nat (bitlen ?k - 1)) \<le> real_of_int ?k"
      using lo by (simp only: of_int_le_iff)
    moreover have "real_of_int ?k < ?y"
      by simp linarith
    ultimately have lo': "(2::real) ^ nat (bitlen ?k - 1) < ?y"
      by simp
    have "\<lceil>?y\<rceil> \<le> 2 ^ nat (bitlen ?k)"
      using hi by simp
    then have "real_of_int \<lceil>?y\<rceil> \<le> real_of_int (2 ^ nat (bitlen ?k))"
      by (simp only: of_int_le_iff)
    then have c: "real_of_int \<lceil>?y\<rceil> \<le> 2 ^ nat (bitlen ?k)"
      by simp
    have hi': "?y \<le> (2::real) ^ nat (bitlen ?k)"
      by (rule order_trans [OF le_of_int_ceiling c])
    have e: "binaryExponent a = - bitlen ?k"
      using False by (simp add: binaryExponent_def)
    have "2 powi (- bitlen ?k) = 1 / (2::real) ^ nat (bitlen ?k)"
      using b by (simp add: power_int_def field_simps)
    moreover have "1 / (2::real) ^ nat (bitlen ?k) \<le> a"
      using hi' assms by (simp add: field_simps)
    moreover have "2 powi (- bitlen ?k + 1) = 1 / (2::real) ^ nat (bitlen ?k - 1)"
    proof (cases "bitlen ?k = 1")
      case True
      then show ?thesis by simp
    next
      case False
      with b have "- bitlen ?k + 1 < 0" by simp
      moreover have "nat (- (- bitlen ?k + 1)) = nat (bitlen ?k - 1)" by simp
      ultimately show ?thesis
        by (simp add: power_int_def field_simps)
    qed
    moreover have "a < 1 / (2::real) ^ nat (bitlen ?k - 1)"
      using lo' assms by (simp add: field_simps)
    ultimately show ?thesis
      unfolding e by simp
  qed
  then show "2 powi binaryExponent a \<le> a" and "a < 2 powi (binaryExponent a + 1)"
    by simp_all
qed

lemma binaryExponent_unique:
  assumes "2 powi e \<le> a" and "a < 2 powi (e + 1)"
  shows "binaryExponent a = e"
proof -
  have pos: "0 < a"
    using assms(1) zero_less_power_int [of "2::real" e] by linarith
  note b = binaryExponent_bounds [OF pos]
  have "(2::real) powi e < 2 powi (binaryExponent a + 1)"
    using assms(1) b(2) by linarith
  then have "e < binaryExponent a + 1"
    by (metis not_less one_le_numeral power_int_increasing)
  moreover have "(2::real) powi binaryExponent a < 2 powi (e + 1)"
    using assms(2) b(1) by linarith
  then have "binaryExponent a < e + 1"
    by (metis not_less one_le_numeral power_int_increasing)
  ultimately show ?thesis by simp
qed

lemma fl_eval:
  assumes "2 powi e \<le> x" and "x < 2 powi (e + 1)"
  shows "fl x = of_int (roundHalfEven (x / 2 powi (e - 52))) * 2 powi (e - 52)"
proof -
  have pos: "0 < x"
    using assms(1) zero_less_power_int [of "2::real" e] by linarith
  then show ?thesis
    by (simp add: fl_def Let_def binaryExponent_unique [OF assms])
qed

lemma fl_0 [simp]: "fl 0 = 0"
  by (simp add: fl_def)

lemma fl_error:
  assumes "0 \<le> x"
  shows "\<bar>fl x - x\<bar> \<le> x / 2 ^ 53"
proof (cases "x = 0")
  case True
  then show ?thesis by simp
next
  case False
  with assms have pos: "0 < x" by simp
  let ?e = "binaryExponent x"
  let ?u = "(2::real) powi (?e - 52)"
  let ?n = "roundHalfEven (x / ?u)"
  have u: "0 < ?u" by simp
  have f: "fl x = of_int ?n * ?u"
    using pos by (simp add: fl_def Let_def)
  have "\<bar>of_int ?n - x / ?u\<bar> * ?u \<le> (1 / 2) * ?u"
    by (intro mult_right_mono roundHalfEven_error) simp
  moreover have "\<bar>of_int ?n - x / ?u\<bar> * ?u = \<bar>of_int ?n * ?u - x\<bar>"
  proof -
    have "\<bar>of_int ?n - x / ?u\<bar> * ?u = \<bar>(of_int ?n - x / ?u) * ?u\<bar>"
      using u by (simp add: abs_mult)
    also have "(of_int ?n - x / ?u) * ?u = of_int ?n * ?u - x"
      using u by (simp add: field_simps)
    finally show ?thesis .
  qed
  moreover have "(1 / 2) * ?u = 2 powi ?e / 2 ^ 53"
  proof -
    have "(2::real) powi (?e - 52) = 2 powi ?e * 2 powi (- 52)"
      using power_int_add [of "2::real" ?e "- 52"] by simp
    then show ?thesis by simp
  qed
  moreover have "2 powi ?e / 2 ^ 53 \<le> x / 2 ^ 53"
    using binaryExponent_bounds(1) [OF pos] by (simp add: divide_right_mono)
  ultimately show ?thesis
    unfolding f by linarith
qed

lemma fl_nonneg:
  assumes "0 \<le> x"
  shows "0 \<le> fl x"
proof -
  have "x / 2 ^ 53 \<le> x"
    using assms by (simp add: field_simps)
  with fl_error [OF assms] show ?thesis
    by linarith
qed

lemma fl_14: "fl 1.4 = 6305039478318694 / 2 ^ 52"
  using fl_eval [of 0 "1.4"] by (simp add: roundHalfEven_def Let_def)

lemma fl_22: "fl 2.2 = 4953959590107546 / 2 ^ 51"
  using fl_eval [of 1 "2.2"] by (simp add: roundHalfEven_def Let_def)

lemma fl_45_14: "fl (45 * (6305039478318694 / 2 ^ 52)) = 8866461766385663 / 2 ^ 47"
  using fl_eval [of 5 "45 * (6305039478318694 / 2 ^ 52)"] by (simp add: roundHalfEven_def Let_def)

lemma fl_60_14: "fl (60 * (6305039478318694 / 2 ^ 52)) = 84"
  using fl_eval [of 6 "60 * (6305039478318694 / 2 ^ 52)"] by (simp add: roundHalfEven_def Let_def)

lemma fl_of_nat:
  assumes "n < 2 ^ 53"
  shows "fl (real n) = real n"
proof (cases "n = 0")
  case True
  then show ?thesis by simp
next
  case False
  then have pos: "0 < real n" by simp
  let ?e = "binaryExponent (real n)"
  note b = binaryExponent_bounds [OF pos]
  have "real n < 2 powi 53"
    using assms by (simp add: of_nat_less_numeral_power_cancel_iff)
  with b(1) have "(2::real) powi ?e < 2 powi 53"
    by linarith
  then have hi: "?e < 53"
    by (metis not_less one_le_numeral power_int_increasing)
  define k where "k = nat (52 - ?e)"
  have u: "(2::real) powi (?e - 52) = 1 / 2 ^ k"
    using hi by (simp add: k_def power_int_def field_simps)
  have "real n / (1 / 2 ^ k) = of_int (int n * 2 ^ k)"
    by simp
  then have "roundHalfEven (real n / (1 / 2 ^ k)) = int n * 2 ^ k"
    by (simp only: roundHalfEven_of_int)
  then show ?thesis
    using pos by (simp add: fl_def Let_def u)
qed

lemma threshold_error:
  assumes "T < 2 ^ 32"
  shows "\<bar>dmul (real T) (fl 1.4) - 1.4 * real T\<bar> < 1 / 5"
proof -
  define t where "t = real T"
  define x where "x = t * (6305039478318694 / 2 ^ 52)"
  have t: "0 \<le> t" and t32: "t < 2 ^ 32"
    using assms by (simp_all add: t_def of_nat_less_numeral_power_cancel_iff)
  have x0: "0 \<le> x"
    using t by (simp add: x_def)
  have e: "\<bar>fl x - x\<bar> \<le> x / 2 ^ 53"
    by (rule fl_error [OF x0])
  have "dmul (real T) (fl 1.4) = fl x"
    unfolding dmul_def fl_14 x_def t_def ..
  moreover have "\<bar>fl x - 1.4 * t\<bar> < 1 / 5"
    using e t t32 unfolding x_def abs_le_iff abs_less_iff by simp
  ultimately show ?thesis
    unfolding t_def by simp
qed

lemma threshold_cases:
  assumes "T < 2 ^ 32"
  shows "1.4 * real T < real C \<Longrightarrow> dmul (real T) (fl 1.4) < real C"
    and "real C < 1.4 * real T \<Longrightarrow> \<not> dmul (real T) (fl 1.4) < real C"
proof -
  note e = threshold_error [OF assms]
  show "dmul (real T) (fl 1.4) < real C" if "1.4 * real T < real C"
  proof -
    from that have "7 * real T < 5 * real C" by simp
    then have "real (7 * T) < real (5 * C)" by simp
    then have "7 * T < 5 * C" by (simp only: of_nat_less_iff)
    then have "7 * T + 1 \<le> 5 * C" by simp
    then have "real (7 * T + 1) \<le> real (5 * C)" by (simp only: of_nat_le_iff)
    then have "1.4 * real T + 1 / 5 \<le> real C" by simp
    with e show ?thesis unfolding abs_less_iff by linarith
  qed
  show "\<not> dmul (real T) (fl 1.4) < real C" if "real C < 1.4 * real T"
  proof -
    from that have "5 * real C < 7 * real T" by simp
    then have "real (5 * C) < real (7 * T)" by simp
    then have "5 * C < 7 * T" by (simp only: of_nat_less_iff)
    then have "5 * C + 1 \<le> 7 * T" by simp
    then have "real (5 * C + 1) \<le> real (7 * T)" by (simp only: of_nat_le_iff)
    then have "real C \<le> 1.4 * real T - 1 / 5" by simp
    with e show ?thesis unfolding abs_less_iff by linarith
  qed
qed

lemma clamp_lipschitz:
  fixes a b b' x x' d :: real
  assumes "\<bar>b' - b\<bar> \<le> d" and "\<bar>x' - x\<bar> \<le> d"
  shows "\<bar>max a (min b' x') - max a (min b x)\<bar> \<le> d"
  using assms by (auto simp add: max_def min_def abs_le_iff)

lemma clamped_ratio_error:
  assumes "0 \<le> r"
  shows "\<bar>max 0.5 (min (fl 2.2) (fl r)) - max 0.5 (min 2.2 r)\<bar> \<le> 3 / 2 ^ 53"
proof (cases "r \<le> 3")
  case True
  have "\<bar>fl r - r\<bar> \<le> r / 2 ^ 53"
    by (rule fl_error [OF assms])
  then have "\<bar>fl r - r\<bar> \<le> 3 / 2 ^ 53"
    using True by (simp add: abs_le_iff)
  moreover have "\<bar>fl 2.2 - 2.2\<bar> \<le> 3 / 2 ^ 53"
    unfolding fl_22 by simp
  ultimately show ?thesis
    by (rule clamp_lipschitz [rotated])
next
  case False
  have "\<bar>fl r - r\<bar> \<le> r / 2 ^ 53"
    by (rule fl_error [OF assms])
  then have "fl 2.2 \<le> fl r"
    using False unfolding fl_22 abs_le_iff by simp
  then have "min (fl 2.2) (fl r) = fl 2.2" and "min 2.2 r = 2.2"
    using False by simp_all
  then show ?thesis
    unfolding fl_22 by simp
qed

lemma target_value_error:
  assumes "0 \<le> r"
  shows "\<bar>fl (60 * max 0.5 (min (fl 2.2) (fl r))) - 60 * max 0.5 (min 2.2 r)\<bar> \<le> 1 / 10 ^ 13"
proof -
  define c where "c = max 0.5 (min (fl 2.2) (fl r))"
  define c0 where "c0 = max 0.5 (min 2.2 r)"
  have d: "\<bar>c - c0\<bar> \<le> 3 / 2 ^ 53"
    unfolding c_def c0_def by (rule clamped_ratio_error [OF assms])
  have c0: "1 / 2 \<le> c0" and c0': "c0 \<le> 2.2"
    by (simp_all add: c0_def)
  have cpos: "0 \<le> 60 * c"
    by (simp add: c_def)
  have e: "\<bar>fl (60 * c) - 60 * c\<bar> \<le> 60 * c / 2 ^ 53"
    by (rule fl_error [OF cpos])
  have "\<bar>fl (60 * c) - 60 * c0\<bar> \<le> 1 / 10 ^ 13"
    using d e c0 c0' unfolding abs_le_iff by simp
  then show ?thesis
    by (simp add: c_def c0_def)
qed

lemma fl_numeral:
  assumes "(numeral k :: nat) < 2 ^ 53"
  shows "fl (numeral k) = numeral k"
  using fl_of_nat [OF assms] by simp

lemma fl_1 [simp]: "fl 1 = 1"
  using fl_of_nat [of 1] by simp

subsection \<open>Creating particles\<close>

lemma freshParticles_0: "freshParticles cfg w h rng k 0 = []"
  by (simp add: freshParticles_def)

lemma freshParticles_Suc:
  "freshParticles cfg w h rng k (Suc n) =
     createParticle cfg w h rng k # freshParticles cfg w h rng (k + 6) n"
proof -
  have "[0..<Suc n] = 0 # map Suc [0..<n]"
    by (simp add: upt_conv_Cons map_Suc_upt del: upt_Suc)
  then show ?thesis
    by (simp add: freshParticles_def comp_def add.assoc del: upt_Suc)
qed

lemma length_freshParticles: "length (freshParticles cfg w h rng k n) = n"
  by (simp add: freshParticles_def)

text \<open>The pushing loop appends \<open>count - i\<close> fresh particles and changes nothing else but
  the index of the next random draw.\<close>

lemma pushParticles_eq:
  "pushParticles cfg rng i count s =
     s\<lparr>particles := particles s @ freshParticles cfg (width s) (height s) rng (randomIndex s) (nat (count - i)),
       randomIndex := randomIndex s + 6 * nat (count - i)\<rparr>"
proof (induction cfg rng i count s rule: pushParticles.induct)
  case (1 cfg rng i count s)
  show ?case
  proof (cases "i < count")
    case True
    then have n: "nat (count - i) = Suc (nat (count - (i + 1)))"
      by simp
    show ?thesis
      using True "1.IH" [OF True]
      by (subst pushParticles.simps) (simp add: n freshParticles_Suc)
  next
    case False
    then show ?thesis
      by (subst pushParticles.simps) (simp add: freshParticles_0)
  qed
qed

lemma slice0_nat: "slice0 xs (int n) = take n xs"
  by (simp add: slice0_def Let_def min_def)

lemma reconcile_particles:
  fixes T :: nat
  shows "particles (reconcile cfg rng (int T) s) =
     (if length (particles s) = 0 then freshParticles cfg (width s) (height s) rng (randomIndex s) T
      else if length (particles s) < T
        then particles s @ freshParticles cfg (width s) (height s) rng (randomIndex s) (T - length (particles s))
      else if dmul (real T) (fl 1.4) < real (length (particles s)) then take T (particles s)
      else particles s)"
  by (simp add: reconcile_def pushParticles_eq slice0_nat nat_diff_distrib')

lemma resize_eq:
  "resize cfg rng vp s =
     reconcile cfg rng (targetCount cfg (resizedArea vp))
       (s\<lparr>width := resizedWidth vp, height := resizedHeight vp,
          canvasWidth := math_round (dmul (resizedWidth vp) (devicePixelRatio s)),
          canvasHeight := math_round (dmul (resizedHeight vp) (devicePixelRatio s)),
          ctxScale := devicePixelRatio s\<rparr>)"
  by (simp add: resize_def Let_def resizedWidth_def resizedHeight_def resizedArea_def)

text \<open>The target count at sample areas, operation by operation.\<close>

lemma refArea: "dmul 1366 768 = 1049088"
  by (simp add: dmul_def fl_numeral)

lemma targetCount_CONFIG:
  "targetCount CONFIG area = math_round (fl (60 * max 0.5 (min (fl 2.2) (fl (area / 1049088)))))"
  unfolding targetCount_def Let_def refArea by (simp add: dmul_def ddiv_def CONFIG_def)

lemma targetCount_eval:
  assumes "fl (area / 1049088) = r" and "max 0.5 (min (fl 2.2) r) = c"
    and "fl (60 * c) = v" and "math_round v = n"
  shows "targetCount CONFIG area = n"
  by (simp only: targetCount_CONFIG assms)

lemma math_round_eq: "real_of_int n - 1 / 2 \<le> v \<Longrightarrow> v < real_of_int n + 1 / 2 \<Longrightarrow> math_round v = n"
  unfolding math_round_def by linarith

lemma targetCount_1049088: "targetCount CONFIG 1049088 = 60"
proof -
  have "fl (1049088 / 1049088) = 1"
    by simp
  moreover have "max 0.5 (min (fl 2.2) 1) = (1::real)"
    unfolding fl_22 by simp
  moreover have "fl (60 * 1) = 60"
    by (simp add: fl_numeral)
  moreover have "math_round 60 = 60"
    by (rule math_round_eq) simp_all
  ultimately show ?thesis
    by (rule targetCount_eval)
qed

lemma targetCount_low: "targetCount CONFIG (0.3 * (1366 * 768)) = 30"
proof -
  have "fl (0.3 * (1366 * 768) / 1049088) = 5404319552844595 / 2 ^ 54"
    using fl_eval [of "- 2" "3 / 10"] by (simp add: roundHalfEven_def Let_def)
  moreover have "max 0.5 (min (fl 2.2) (5404319552844595 / 2 ^ 54)) = (1 / 2 :: real)"
    unfolding fl_22 by simp
  moreover have "fl (60 * (1 / 2)) = 30"
    by (simp add: fl_numeral)
  moreover have "math_round 30 = 30"
    by (rule math_round_eq) simp_all
  ultimately show ?thesis
    by (rule targetCount_eval)
qed

lemma targetCount_high: "targetCount CONFIG (5 * (1366 * 768)) = 132"
proof -
  have "fl (5 * (1366 * 768) / 1049088) = 5"
    by (simp add: fl_numeral)
  moreover have "max 0.5 (min (fl 2.2) 5) = (4953959590107546 / 2 ^ 51 :: real)"
    unfolding fl_22 by simp
  moreover have "fl (60 * (4953959590107546 / 2 ^ 51)) = 132"
    using fl_eval [of 7 "60 * (4953959590107546 / 2 ^ 51)"] by (simp add: roundHalfEven_def Let_def)
  moreover have "math_round 132 = 132"
    by (rule math_round_eq) simp_all
  ultimately show ?thesis
    by (rule targetCount_eval)
qed

lemma targetCount_1101312: "targetCount CONFIG 1101312 = 63"
proof -
  have "fl (1101312 / 1049088) = 4727790531222029 / 2 ^ 52"
    using fl_eval [of 0 "1101312 / 1049088"] by (simp add: roundHalfEven_def Let_def)
  moreover have "max 0.5 (min (fl 2.2) (4727790531222029 / 2 ^ 52)) = (4727790531222029 / 2 ^ 52 :: real)"
    unfolding fl_22 by simp
  moreover have "fl (60 * (4727790531222029 / 2 ^ 52)) = 8864607246041304 / 2 ^ 47"
    using fl_eval [of 5 "60 * (4727790531222029 / 2 ^ 52)"] by (simp add: roundHalfEven_def Let_def)
  moreover have "math_round (8864607246041304 / 2 ^ 47) = 63"
    by (rule math_round_eq) simp_all
  ultimately show ?thesis
    by (rule targetCount_eval)
qed

lemma targetCount_786816: "targetCount CONFIG 786816 = 45"
proof -
  have "fl (786816 / 1049088) = 3 / 4"
    using fl_eval [of "- 1" "786816 / 1049088"] by (simp add: roundHalfEven_def Let_def)
  moreover have "max 0.5 (min (fl 2.2) (3 / 4)) = (3 / 4 :: real)"
    unfolding fl_22 by simp
  moreover have "fl (60 * (3 / 4)) = 45"
    by (simp add: fl_numeral)
  moreover have "math_round 45 = 45"
    by (rule math_round_eq) simp_all
  ultimately show ?thesis
    by (rule targetCount_eval)
qed

lemma targetCount_2141888: "targetCount CONFIG 2141888 = 122"
proof -
  have "fl (2141888 / 1049088) = 4597424619607381 / 2 ^ 51"
    using fl_eval [of 1 "2141888 / 1049088"] by (simp add: roundHalfEven_def Let_def)
  moreover have "max 0.5 (min (fl 2.2) (4597424619607381 / 2 ^ 51)) = (4597424619607381 / 2 ^ 51 :: real)"
    unfolding fl_22 by simp
  moreover have "fl (60 * (4597424619607381 / 2 ^ 51)) = 8620171161763839 / 2 ^ 46"
    using fl_eval [of 6 "60 * (4597424619607381 / 2 ^ 51)"] by (simp add: roundHalfEven_def Let_def)
  moreover have "math_round (8620171161763839 / 2 ^ 46) = 122"
    by (rule math_round_eq) simp_all
  ultimately show ?thesis
    by (rule targetCount_eval)
qed

lemma resizedArea_samples:
  "resizedArea refViewport = 1049088" "resizedArea wideViewport = 1101312"
  "resizedArea shortViewport = 786816" "resizedArea tallViewport = 2141888"
  by (simp_all add: resizedArea_def resizedWidth_def resizedHeight_def js_or_def dmul_def fl_numeral
      refViewport_def wideViewport_def shortViewport_def tallViewport_def)

lemma targetCount_ref: "targetCount CONFIG (resizedArea refViewport) = int 60"
  by (simp add: resizedArea_samples targetCount_1049088)

lemma targetCount_wide: "targetCount CONFIG (resizedArea wideViewport) = int 63"
  by (simp add: resizedArea_samples targetCount_1101312)

lemma targetCount_short: "targetCount CONFIG (resizedArea shortViewport) = int 45"
  by (simp add: resizedArea_samples targetCount_786816)

lemma targetCount_tall: "targetCount CONFIG (resizedArea tallViewport) = int 122"
  by (simp add: resizedArea_samples targetCount_2141888)

lemma length_field: "length (particles (field n)) = n"
  by (simp add: field_def)

subsection \<open>The target count\<close>

lemma max_min_clamp: "lo \<le> hi \<Longrightarrow> max lo (min hi v) = clamp v lo hi"
  by (auto simp: clamp_def max_def min_def)

lemma exactTarget_60: "exactTarget 60 area = 60 * max 0.5 (min 2.2 (area / 1049088))"
proof -
  have "max 0.5 (min 2.2 (area / (1366 * 768))) = clamp (area / (1366 * 768)) 0.5 2.2"
    by (rule max_min_clamp) simp
  then show ?thesis
    by (simp add: exactTarget_def)
qed

text \<open>The double that \<open>resize\<close> rounds to its count is within \<open>10\<^sup>-\<^sup>1\<^sup>3\<close> of the exact
  product.\<close>

lemma targetCount_near:
  assumes "0 \<le> area"
  shows "\<exists>v. targetCount CONFIG area = \<lfloor>v + 1 / 2\<rfloor> \<and> \<bar>v - exactTarget 60 area\<bar> \<le> 1 / 10 ^ 13"
proof -
  have r: "0 \<le> area / 1049088"
    using assms by simp
  have "targetCount CONFIG area =
      \<lfloor>fl (60 * max 0.5 (min (fl 2.2) (fl (area / 1049088)))) + 1 / 2\<rfloor>"
    unfolding targetCount_CONFIG math_round_def ..
  then show ?thesis
    using target_value_error [OF r] unfolding exactTarget_60 by blast
qed

lemma resizedArea_exact:
  assumes "resizedWidth vp * resizedHeight vp < 2 ^ 53"
  shows "resizedArea vp = resizedWidth vp * resizedHeight vp"
proof -
  define w where "w = (if clientWidth vp = 0 then innerWidth vp else clientWidth vp)"
  define h where "h = (if clientHeight vp = 0 then innerHeight vp else clientHeight vp)"
  have wh: "resizedWidth vp = real w" "resizedHeight vp = real h"
    by (simp_all add: resizedWidth_def resizedHeight_def js_or_def w_def h_def)
  have "real (w * h) < 2 ^ 53"
    using assms by (simp add: wh)
  then have "w * h < 2 ^ 53"
    by (simp only: of_nat_less_numeral_power_cancel_iff)
  then have "fl (real (w * h)) = real (w * h)"
    by (rule fl_of_nat)
  then show ?thesis
    by (simp add: resizedArea_def dmul_def wh)
qed

text \<open>
  Claim C4 as stated fails on the surface 1366 by 1568: the exact product
  \<open>60 \<times> (1366 \<times> 1568) / (1366 \<times> 768)\<close> is 122.5, which the specification's formula rounds
  to 123; the quotient and the product of \<open>resize\<close>, in doubles, give
  122.49999999999999, and its count is 122.
\<close>

theorem target_count_formula_counterexample:
  "targetCount CONFIG (resizedArea tallViewport) = 122
   \<and> resizedArea tallViewport = 1366 * 1568
   \<and> specTargetCount (baseCount CONFIG) (1366 * 1568) = 123
   \<and> length (particles (resize CONFIG halfDraws tallViewport (field 0))) = 122"
proof -
  have x: "exactTarget (baseCount CONFIG) (1366 * 1568) = 245 / 2"
    by (simp add: exactTarget_60 CONFIG_def)
  have spec: "specTargetCount (baseCount CONFIG) (1366 * 1568) = 123"
    unfolding specTargetCount_def x by (simp add: round_def)
  have count: "targetCount CONFIG (resizedArea tallViewport) = 122"
    using targetCount_tall by simp
  have area: "resizedArea tallViewport = 1366 * 1568"
    by (simp add: resizedArea_samples)
  have "length (particles (resize CONFIG halfDraws tallViewport (field 0))) = 122"
    by (simp add: resize_eq targetCount_tall reconcile_def pushParticles_eq length_freshParticles
        field_def)
  with spec count area show ?thesis
    by blast
qed

text \<open>
  Claim C4, amended. For every surface, \<open>resize\<close> reconciles the field with the count
  \<open>Math.round(baseCount * clamp(area / (1366 * 768), 0.5, 2.2))\<close> whose quotient and
  products are those of doubles; the area is the exact \<open>width \<times> height\<close> below \<open>2\<^sup>5\<^sup>3\<close>.
  With the base count 60 of \<open>CONFIG\<close> and an area that is not negative, that count
  differs by at most 1 from the specification's
  \<open>round(baseCount \<times> clamp(area / (1366 \<times> 768), 0.5, 2.2))\<close> in exact arithmetic, is equal
  to it whenever the exact product is farther than \<open>10\<^sup>-\<^sup>1\<^sup>3\<close> from every half-integer,
  and lies between 30 and 132. It is 60 at the reference area, 30 at 0.3 times the
  reference area and 132 at 5 times the reference area.
\<close>

theorem target_count_formula:
  assumes "0 \<le> area"
  shows "\<bar>targetCount CONFIG area - specTargetCount (baseCount CONFIG) area\<bar> \<le> 1
       \<and> (awayFromHalf (exactTarget (baseCount CONFIG) area) \<longrightarrow>
            targetCount CONFIG area = specTargetCount (baseCount CONFIG) area)
       \<and> 30 \<le> targetCount CONFIG area \<and> targetCount CONFIG area \<le> 132
       \<and> resize cfg rng vp s =
           reconcile cfg rng (targetCount cfg (resizedArea vp))
             (s\<lparr>width := resizedWidth vp, height := resizedHeight vp,
                canvasWidth := math_round (dmul (resizedWidth vp) (devicePixelRatio s)),
                canvasHeight := math_round (dmul (resizedHeight vp) (devicePixelRatio s)),
                ctxScale := devicePixelRatio s\<rparr>)
       \<and> (resizedWidth vp * resizedHeight vp < 2 ^ 53 \<longrightarrow>
            resizedArea vp = resizedWidth vp * resizedHeight vp)
       \<and> targetCount CONFIG (1366 * 768) = 60
       \<and> targetCount CONFIG (0.3 * (1366 * 768)) = 30
       \<and> targetCount CONFIG (5 * (1366 * 768)) = 132"
proof -
  let ?x = "exactTarget 60 area"
  obtain v where t: "targetCount CONFIG area = \<lfloor>v + 1 / 2\<rfloor>" and near: "\<bar>v - ?x\<bar> \<le> 1 / 10 ^ 13"
    using targetCount_near [OF assms] by blast
  have lo: "?x - 1 / 10 ^ 13 + 1 / 2 \<le> v + 1 / 2" and hi: "v + 1 / 2 \<le> ?x + 1 / 10 ^ 13 + 1 / 2"
    using near unfolding abs_le_iff by linarith+
  have flo: "\<lfloor>?x - 1 / 10 ^ 13 + 1 / 2\<rfloor> \<le> targetCount CONFIG area"
    unfolding t by (rule floor_mono [OF lo])
  have fhi: "targetCount CONFIG area \<le> \<lfloor>?x + 1 / 10 ^ 13 + 1 / 2\<rfloor>"
    unfolding t by (rule floor_mono [OF hi])
  have spec: "specTargetCount (baseCount CONFIG) area = \<lfloor>?x + 1 / 2\<rfloor>"
    by (simp add: specTargetCount_def round_def CONFIG_def)
  have slo: "\<lfloor>?x - 1 / 10 ^ 13 + 1 / 2\<rfloor> \<le> \<lfloor>?x + 1 / 2\<rfloor>"
    and shi: "\<lfloor>?x + 1 / 2\<rfloor> \<le> \<lfloor>?x + 1 / 10 ^ 13 + 1 / 2\<rfloor>"
    by (rule floor_mono, simp)+
  have wlo: "\<lfloor>?x + 1 / 2\<rfloor> - 1 \<le> \<lfloor>?x - 1 / 10 ^ 13 + 1 / 2\<rfloor>"
  proof -
    have "\<lfloor>?x + 1 / 2\<rfloor> - 1 = \<lfloor>?x + 1 / 2 - 1\<rfloor>"
      by (simp only: floor_diff_one)
    also have "\<dots> \<le> \<lfloor>?x - 1 / 10 ^ 13 + 1 / 2\<rfloor>"
      by (rule floor_mono) simp
    finally show ?thesis .
  qed
  have whi: "\<lfloor>?x + 1 / 10 ^ 13 + 1 / 2\<rfloor> \<le> \<lfloor>?x + 1 / 2\<rfloor> + 1"
  proof -
    have "\<lfloor>?x + 1 / 10 ^ 13 + 1 / 2\<rfloor> \<le> \<lfloor>?x + 1 / 2 + 1\<rfloor>"
      by (rule floor_mono) simp
    also have "\<dots> = \<lfloor>?x + 1 / 2\<rfloor> + 1"
      by linarith
    finally show ?thesis .
  qed
  have one: "\<bar>targetCount CONFIG area - specTargetCount (baseCount CONFIG) area\<bar> \<le> 1"
    unfolding spec using flo fhi wlo whi by linarith
  have same: "targetCount CONFIG area = specTargetCount (baseCount CONFIG) area"
    if "awayFromHalf (exactTarget (baseCount CONFIG) area)"
  proof -
    from that have "\<lfloor>?x - 1 / 10 ^ 13 + 1 / 2\<rfloor> = \<lfloor>?x + 1 / 10 ^ 13 + 1 / 2\<rfloor>"
      by (simp add: awayFromHalf_def CONFIG_def)
    then show ?thesis
      unfolding spec using flo fhi slo shi by linarith
  qed
  have range: "30 \<le> ?x" "?x \<le> 132"
    by (simp_all add: exactTarget_60)
  have "(30::int) = \<lfloor>30::real\<rfloor>"
    by simp
  also have "\<dots> \<le> \<lfloor>?x - 1 / 10 ^ 13 + 1 / 2\<rfloor>"
    by (rule floor_mono) (use range(1) in simp)
  also note flo
  finally have b30: "30 \<le> targetCount CONFIG area" .
  note fhi
  also have "\<lfloor>?x + 1 / 10 ^ 13 + 1 / 2\<rfloor> \<le> \<lfloor>132 + 3 / (4::real)\<rfloor>"
    by (rule floor_mono) (use range(2) in simp)
  also have "\<dots> = 132"
    by linarith
  finally have b132: "targetCount CONFIG area \<le> 132" .
  show ?thesis
    using one same b30 b132 resize_eq [of cfg rng vp s] resizedArea_exact [of vp]
      targetCount_1049088 targetCount_low targetCount_high
    by simp
qed

theorem target_count_formula_witness:
  "(0::real) \<le> 1366 * 768
   \<and> awayFromHalf (exactTarget (baseCount CONFIG) (1366 * 768))
   \<and> targetCount CONFIG (1366 * 768) = specTargetCount (baseCount CONFIG) (1366 * 768)
   \<and> specTargetCount (baseCount CONFIG) (1366 * 768) = 60
   \<and> resizedWidth refViewport * resizedHeight refViewport < 2 ^ 53
   \<and> resizedArea refViewport = resizedWidth refViewport * resizedHeight refViewport"
proof -
  have a: "(0::real) \<le> 1366 * 768"
    by simp
  have x: "exactTarget (baseCount CONFIG) (1366 * 768) = 60"
    by (simp add: exactTarget_60 CONFIG_def)
  have away: "awayFromHalf (exactTarget (baseCount CONFIG) (1366 * 768))"
    unfolding x by (simp add: awayFromHalf_def)
  have s: "specTargetCount (baseCount CONFIG) (1366 * 768) = 60"
    unfolding specTargetCount_def x by (simp add: round_def)
  have small: "resizedWidth refViewport * resizedHeight refViewport < 2 ^ 53"
    by (simp add: resizedWidth_def resizedHeight_def refViewport_def js_or_def)
  show ?thesis
    using target_count_formula [OF a, where vp = refViewport and cfg = CONFIG and rng = halfDraws
        and s = "field 0"] a away s small
    by blast
qed

subsection \<open>Reconciliation at \<open>resize\<close>\<close>

lemma threshold_45: "dmul 45 (fl 1.4) = 8866461766385663 / 2 ^ 47"
  unfolding dmul_def fl_14 by (rule fl_45_14)

lemma threshold_60: "dmul 60 (fl 1.4) = 84"
  unfolding dmul_def fl_14 by (rule fl_60_14)

text \<open>
  Claim C3 as stated fails at 63 particles and the target 45, where \<open>1.4 \<times> 45\<close> is 63:
  the product \<open>45 * 1.4\<close> of doubles is 62.99999999999999, below 63, and \<open>resize\<close>
  truncates the field to 45 particles. The animator gets there by a resize to 1434 by
  768, which creates 63 particles, and one to 1366 by 576.
\<close>

theorem resize_reconciliation_counterexample:
  "targetCount CONFIG (resizedArea shortViewport) = 45
   \<and> length (particles (field 63)) = 63
   \<and> (45::nat) \<le> 63 \<and> real 63 \<le> 1.4 * real 45
   \<and> length (particles (resize CONFIG halfDraws shortViewport (field 63))) = 45
   \<and> length (particles (resize CONFIG halfDraws wideViewport (field 0))) = 63
   \<and> length (particles (resize CONFIG halfDraws shortViewport
        (resize CONFIG halfDraws wideViewport (field 0)))) = 45"
proof -
  have n45: "real (45::nat) = 45"
    by simp
  have t45: "dmul (real (45::nat)) (fl 1.4) < real (63::nat)"
    unfolding n45 threshold_45 by simp
  have short: "length (particles (resize CONFIG halfDraws shortViewport s)) = 45"
    if "length (particles s) = 63" for s
  proof -
    have "particles (resize CONFIG halfDraws shortViewport s) = take 45 (particles s)"
      unfolding resize_eq targetCount_short reconcile_particles using that t45 by simp
    then show ?thesis
      using that by simp
  qed
  have wide: "length (particles (resize CONFIG halfDraws wideViewport (field 0))) = 63"
    using reconcile_particles [of CONFIG halfDraws 63]
    by (simp add: resize_eq targetCount_wide length_freshParticles field_def)
  show ?thesis
    using short [of "field 63"] short [OF wide] wide
    by (simp add: targetCount_short length_field)
qed

text \<open>
  Claim C3, amended. When \<open>resize\<close> computes the target count \<open>T\<close> (below \<open>2\<^sup>3\<^sup>2\<close>) for a
  field of \<open>C\<close> particles, the field has afterwards \<open>T\<close> particles when \<open>C = 0\<close>; \<open>T\<close> when
  \<open>0 < C < T\<close> (the particles there before stay, in their places); the first \<open>T\<close> of its
  particles when \<open>C > 1.4 \<times> T\<close>; and is unchanged when \<open>T \<le> C < 1.4 \<times> T\<close>. When \<open>C\<close> is
  exactly \<open>1.4 \<times> T\<close>, the product \<open>T * 1.4\<close> of doubles decides: the field is unchanged
  where the product is \<open>C\<close> (84 particles at the target 60) and truncated to \<open>T\<close> where it
  is below (63 particles at the target 45). The four pairs of the specification follow
  it: 0, 50, 90 and 70 particles at the target 60.
\<close>

theorem resize_reconciliation:
  fixes T :: nat
  assumes "targetCount cfg (resizedArea vp) = int T" and "T < 2 ^ 32"
  shows "length (particles (resize cfg rng vp s)) =
           (if length (particles s) = 0 then T
            else if length (particles s) < T then T
            else if dmul (real T) (fl 1.4) < real (length (particles s)) then T
            else length (particles s))
         \<and> (length (particles s) < T \<longrightarrow>
              take (length (particles s)) (particles (resize cfg rng vp s)) = particles s)
         \<and> (T \<le> length (particles s) \<and> 1.4 * real T < real (length (particles s)) \<longrightarrow>
              particles (resize cfg rng vp s) = take T (particles s)
              \<and> length (particles (resize cfg rng vp s)) = T)
         \<and> (0 < length (particles s) \<and> T \<le> length (particles s)
               \<and> real (length (particles s)) < 1.4 * real T \<longrightarrow>
              particles (resize cfg rng vp s) = particles s)
         \<and> (0 < length (particles s) \<and> real (length (particles s)) = 1.4 * real T \<longrightarrow>
              particles (resize cfg rng vp s) =
                (if dmul (real T) (fl 1.4) < real (length (particles s))
                 then take T (particles s) else particles s))"
proof -
  have eq: "particles (resize cfg rng vp s) =
     (if length (particles s) = 0 then freshParticles cfg (resizedWidth vp) (resizedHeight vp) rng (randomIndex s) T
      else if length (particles s) < T
        then particles s @ freshParticles cfg (resizedWidth vp) (resizedHeight vp) rng (randomIndex s)
               (T - length (particles s))
      else if dmul (real T) (fl 1.4) < real (length (particles s)) then take T (particles s)
      else particles s)"
    by (simp add: resize_eq assms(1) reconcile_particles)
  note th = threshold_cases [OF assms(2), of "length (particles s)"]
  have above: "dmul (real T) (fl 1.4) < real (length (particles s))"
    if "1.4 * real T < real (length (particles s))"
    using th(1) that by simp
  have below: "\<not> dmul (real T) (fl 1.4) < real (length (particles s))"
    if "real (length (particles s)) < 1.4 * real T"
    using th(2) that by simp
  have between: "\<not> length (particles s) < T" if "real (length (particles s)) = 1.4 * real T"
  proof
    assume "length (particles s) < T"
    then have "real (length (particles s)) < real T"
      by (simp only: of_nat_less_iff)
    with that show False by simp
  qed
  show ?thesis
    unfolding eq using above below between
    by (auto simp add: length_freshParticles)
qed

theorem resize_reconciliation_witness:
  "targetCount CONFIG (resizedArea refViewport) = int 60 \<and> (60::nat) < 2 ^ 32
   \<and> length (particles (resize CONFIG halfDraws refViewport (field 0))) = 60
   \<and> length (particles (resize CONFIG halfDraws refViewport (field 50))) = 60
   \<and> take 50 (particles (resize CONFIG halfDraws refViewport (field 50))) = particles (field 50)
   \<and> length (particles (resize CONFIG halfDraws refViewport (field 90))) = 60
   \<and> particles (resize CONFIG halfDraws refViewport (field 90)) = take 60 (particles (field 90))
   \<and> length (particles (resize CONFIG halfDraws refViewport (field 70))) = 70
   \<and> particles (resize CONFIG halfDraws refViewport (field 70)) = particles (field 70)
   \<and> real 84 = 1.4 * real 60
   \<and> particles (resize CONFIG halfDraws refViewport (field 84)) = particles (field 84)"
proof -
  have small: "(60::nat) < 2 ^ 32"
    by simp
  note r = resize_reconciliation [OF targetCount_ref small, of halfDraws]
  have n60: "real (60::nat) = 60"
    by simp
  have t60: "\<not> dmul (real (60::nat)) (fl 1.4) < real (84::nat)"
    unfolding n60 threshold_60 by simp
  have "length (particles (resize CONFIG halfDraws refViewport (field 0))) = 60"
    using r [of "field 0"] by (auto simp add: length_field)
  moreover have "length (particles (resize CONFIG halfDraws refViewport (field 50))) = 60"
    and "take 50 (particles (resize CONFIG halfDraws refViewport (field 50))) = particles (field 50)"
    using r [of "field 50"] by (auto simp add: length_field)
  moreover have "length (particles (resize CONFIG halfDraws refViewport (field 90))) = 60"
    and "particles (resize CONFIG halfDraws refViewport (field 90)) = take 60 (particles (field 90))"
    using r [of "field 90"] by (auto simp add: length_field)
  moreover have "length (particles (resize CONFIG halfDraws refViewport (field 70))) = 70"
    and "particles (resize CONFIG halfDraws refViewport (field 70)) = particles (field 70)"
    using r [of "field 70"] by (auto simp add: length_field)
  moreover have "particles (resize CONFIG halfDraws refViewport (field 84)) = particles (field 84)"
    using r [of "field 84"] t60 by (auto simp add: length_field)
  ultimately show ?thesis
    using targetCount_ref small by simp
qed

subsection \<open>What the handlers leave alone, and runs\<close>

lemma mouseInteraction_pos [simp]:
  "p_x (mouseInteraction cfg m p) = p_x p" "p_y (mouseInteraction cfg m p) = p_y p"
  by (simp_all add: mouseInteraction_def clampVelocity_def applyForce_def Let_def)

lemma updateParticle_x:
  "p_x (updateParticle cfg w h m p) =
     (let x1 = p_x p + p_vx p; x2 = (if x1 < - 10 then w + 10 else x1)
      in if x2 > w + 10 then - 10 else x2)"
  by (simp add: updateParticle_def damping_def wrapEdges_def applyVelocity_def Let_def)

lemma updateParticle_y:
  "p_y (updateParticle cfg w h m p) =
     (let y1 = p_y p + p_vy p; y2 = (if y1 < - 10 then h + 10 else y1)
      in if y2 > h + 10 then - 10 else y2)"
  by (simp add: updateParticle_def damping_def wrapEdges_def applyVelocity_def Let_def)

lemma updateParticle_inBounds:
  "0 \<le> w \<Longrightarrow> 0 \<le> h \<Longrightarrow> inBounds w h (updateParticle cfg w h m p)"
  by (simp add: inBounds_def updateParticle_x updateParticle_y Let_def)

lemma update_fields [simp]:
  "width (update cfg s) = width s" "height (update cfg s) = height s"
  "mouse (update cfg s) = mouse s" "isRunning (update cfg s) = isRunning s"
  "rafQueue (update cfg s) = rafQueue s" "rafMouse (update cfg s) = rafMouse s"
  "particles (update cfg s) = map (updateParticle cfg (width s) (height s) (mouse s)) (particles s)"
  by (simp_all add: update_def)

lemma loop_running:
  "isRunning s \<Longrightarrow> loop cfg s =
     ((update cfg s)\<lparr>rafQueue := rafQueue s @ [LoopCallback], rafHandle := rafHandle s + 1,
         animId := Some (rafHandle s + 1)\<rparr>, render cfg (update cfg s))"
  by (simp add: loop_def Let_def requestAnimationFrame_def update_def)

lemma loop_paused: "\<not> isRunning s \<Longrightarrow> loop cfg s = (s, [])"
  by (simp add: loop_def)

lemma loop_fields [simp]:
  "width (fst (loop cfg s)) = width s" "height (fst (loop cfg s)) = height s"
  "mouse (fst (loop cfg s)) = mouse s" "isRunning (fst (loop cfg s)) = isRunning s"
  "particles (fst (loop cfg s)) =
     (if isRunning s then map (updateParticle cfg (width s) (height s) (mouse s)) (particles s)
      else particles s)"
  by (cases "isRunning s"; simp add: loop_running loop_paused)+

lemma onMouseMove_fields [simp]:
  "width (onMouseMove cx cy l t s) = width s" "height (onMouseMove cx cy l t s) = height s"
  "particles (onMouseMove cx cy l t s) = particles s"
  "isRunning (onMouseMove cx cy l t s) = isRunning s"
  by (simp_all add: onMouseMove_def Let_def requestAnimationFrame_def)

lemma onMouseLeave_fields [simp]:
  "width (onMouseLeave s) = width s" "height (onMouseLeave s) = height s"
  "particles (onMouseLeave s) = particles s" "isRunning (onMouseLeave s) = isRunning s"
  by (simp_all add: onMouseLeave_def)

lemma onTouchMove_fields [simp]:
  "width (onTouchMove ts l t s) = width s" "height (onTouchMove ts l t s) = height s"
  "particles (onTouchMove ts l t s) = particles s"
  "isRunning (onTouchMove ts l t s) = isRunning s"
  by (simp_all add: onTouchMove_def split: option.splits list.splits prod.splits)

text \<open>A property of the state that \<open>loop\<close> and the reset of \<open>rafMouse\<close> keep is kept by a
  whole animation frame.\<close>

lemma foldl_runCallback_invariant:
  assumes "P (fst acc)"
    and "\<And>s. P s \<Longrightarrow> P (fst (loop cfg s))"
    and "\<And>s. P s \<Longrightarrow> P (s\<lparr>rafMouse := None\<rparr>)"
  shows "P (fst (foldl (runCallback cfg) acc cbs))"
  using assms(1)
proof (induction cbs arbitrary: acc)
  case Nil
  then show ?case by simp
next
  case (Cons cb cbs)
  have "P (fst (runCallback cfg acc cb))"
    using Cons.prems assms(2,3)
    by (cases cb) (simp_all add: runCallback_def split_beta)
  then show ?case
    using Cons.IH by simp
qed

lemma animationFrame_invariant:
  assumes "P s"
    and "\<And>s. P s \<Longrightarrow> P (fst (loop cfg s))"
    and "\<And>s. P s \<Longrightarrow> P (s\<lparr>rafMouse := None\<rparr>)"
    and "\<And>s. P s \<Longrightarrow> P (s\<lparr>rafQueue := []\<rparr>)"
  shows "P (fst (animationFrame cfg s))"
  unfolding animationFrame_def
  by (rule foldl_runCallback_invariant) (simp_all add: assms)

lemma run_invariant:
  assumes "P s"
    and "list_all Q evs"
    and "\<And>s e. P s \<Longrightarrow> Q e \<Longrightarrow> P (fst (step cfg rng s e))"
  shows "P (fst (run cfg rng s evs))"
  using assms(1,2)
proof (induction evs arbitrary: s)
  case Nil
  then show ?case by simp
next
  case (Cons e es)
  then have "P (fst (step cfg rng s e))" and "list_all Q es"
    using assms(3) by simp_all
  then have "P (fst (run cfg rng (fst (step cfg rng s e)) es))"
    by (rule Cons.IH)
  then show ?case
    by (simp add: split_beta Let_def)
qed

lemma js_or_nonneg: "0 \<le> a \<Longrightarrow> 0 \<le> b \<Longrightarrow> 0 \<le> js_or a b"
  by (simp add: js_or_def)

lemma reconcile_fields [simp]:
  "width (reconcile cfg rng c s) = width s" "height (reconcile cfg rng c s) = height s"
  "mouse (reconcile cfg rng c s) = mouse s" "isRunning (reconcile cfg rng c s) = isRunning s"
  by (simp_all add: reconcile_def pushParticles_eq)

lemma resize_fields [simp]:
  "width (resize cfg rng vp s) = resizedWidth vp" "height (resize cfg rng vp s) = resizedHeight vp"
  "mouse (resize cfg rng vp s) = mouse s" "isRunning (resize cfg rng vp s) = isRunning s"
  by (simp_all add: resize_eq)

lemma resized_nonneg: "0 \<le> resizedWidth vp" "0 \<le> resizedHeight vp"
  by (simp_all add: resizedWidth_def resizedHeight_def js_or_nonneg)

lemma onVisibilityChange_eq:
  "onVisibilityChange cfg v s =
     (if v then loop cfg (s\<lparr>isRunning := True\<rparr>) else (s\<lparr>isRunning := False\<rparr>, []))"
  by (simp add: onVisibilityChange_def Let_def)

lemma step_surfaceOk: "surfaceOk s \<Longrightarrow> surfaceOk (fst (step cfg rng s e))"
proof (cases e)
  case AnimationFrame
  assume "surfaceOk s"
  then have "surfaceOk (fst (animationFrame cfg s))"
    by (rule animationFrame_invariant) (simp_all add: surfaceOk_def)
  with AnimationFrame show ?thesis by simp
qed (simp_all add: surfaceOk_def onVisibilityChange_eq onTouchEnd_def resized_nonneg)

lemma initial_surfaceOk: "surfaceOk (initial ratio cw ch k)"
  by (simp add: surfaceOk_def initial_def)

lemma started_surfaceOk: "surfaceOk (started cfg rng vp ratio cw ch k)"
  by (simp add: started_def init_def surfaceOk_def resized_nonneg)

lemma reachable_surfaceOk: "surfaceOk (fst (run cfg rng (started cfg rng vp ratio cw ch k) evs))"
  by (rule run_invariant [where Q = "\<lambda>e. True"])
    (simp_all add: started_surfaceOk step_surfaceOk list_all_iff)

lemma update_wrapInvariant: "surfaceOk s \<Longrightarrow> wrapInvariant (update cfg s)"
  by (simp add: wrapInvariant_def surfaceOk_def fieldInBounds_def list_all_iff updateParticle_inBounds)

lemma loop_wrapInvariant: "wrapInvariant s \<Longrightarrow> wrapInvariant (fst (loop cfg s))"
  by (simp add: wrapInvariant_def surfaceOk_def fieldInBounds_def list_all_iff updateParticle_inBounds)

lemma step_wrapInvariant:
  "wrapInvariant s \<Longrightarrow> keepsSurface e \<Longrightarrow> wrapInvariant (fst (step cfg rng s e))"
proof (cases e)
  case AnimationFrame
  assume "wrapInvariant s"
  then have "wrapInvariant (fst (animationFrame cfg s))"
    by (rule animationFrame_invariant)
      (simp_all add: loop_wrapInvariant, simp_all add: wrapInvariant_def surfaceOk_def fieldInBounds_def)
  with AnimationFrame show ?thesis by simp
next
  case (VisibilityChange v)
  assume "wrapInvariant s"
  then have "wrapInvariant (s\<lparr>isRunning := v\<rparr>)"
    by (simp add: wrapInvariant_def surfaceOk_def fieldInBounds_def)
  then show ?thesis
    using VisibilityChange loop_wrapInvariant [of "s\<lparr>isRunning := v\<rparr>" cfg]
    by (cases v) (simp_all add: onVisibilityChange_eq)
qed (simp_all add: wrapInvariant_def surfaceOk_def fieldInBounds_def onTouchEnd_def)

lemma createParticle_inBounds:
  assumes "uniformDraws rng" and "0 \<le> w" and "0 \<le> h"
  shows "inBounds w h (createParticle cfg w h rng k)"
proof -
  have b: "- 10 \<le> r * d \<and> r * d \<le> d + 10" if "0 \<le> r" "r < 1" "0 \<le> d" for r d :: real
  proof -
    have "0 \<le> r * d"
      using that by simp
    moreover have "r * d \<le> 1 * d"
      using that by (intro mult_right_mono) simp_all
    ultimately show ?thesis by simp
  qed
  have "0 \<le> rng k" "rng k < 1" "0 \<le> rng (k + 1)" "rng (k + 1) < 1"
    using assms(1) by (simp_all add: uniformDraws_def)
  then show ?thesis
    using b [of "rng k" w] b [of "rng (k + 1)" h] assms(2,3)
    by (simp add: inBounds_def createParticle_def)
qed

lemma step_length:
  "keepsSurface e \<Longrightarrow> length (particles (fst (step cfg rng s e))) = length (particles s)"
proof (cases e)
  case AnimationFrame
  have "length (particles (fst (animationFrame cfg s))) = length (particles s)"
    by (rule animationFrame_invariant [where P = "\<lambda>t. length (particles t) = length (particles s)"])
      simp_all
  with AnimationFrame show ?thesis by simp
qed (simp_all add: onVisibilityChange_eq onTouchEnd_def)

lemma run_length:
  assumes "list_all keepsSurface evs"
  shows "length (particles (fst (run cfg rng s evs))) = length (particles s)"
  by (rule run_invariant [where P = "\<lambda>t. length (particles t) = length (particles s)", OF _ assms])
    (simp_all add: step_length)

lemma started_length:
  "length (particles (started cfg rng vp ratio cw ch k))
     = nat (targetCount cfg (resizedArea vp))"
  by (simp add: started_def init_def resize_eq reconcile_def pushParticles_eq initial_def
      length_freshParticles)

lemma uniformDraws_halfDraws: "uniformDraws halfDraws"
  by (simp add: uniformDraws_def halfDraws_def)

lemma sqrt_25: "sqrt 25 = 5"
  by (rule real_sqrt_unique) simp_all

subsection \<open>The wrap invariant\<close>

text \<open>
  Claim C1. Take any state the started animator can reach (after any events, resizes
  among them), let \<open>update\<close> run once, and then let any frames, pointer events and
  visibility changes follow: every particle of the field has both coordinates within
  \<open>[-10, dimension + 10]\<close> for the surface's width and height. The update step moves a
  coordinate that went below \<open>-10\<close> to the opposite edge plus 10, and one that went above
  the edge plus 10 to \<open>-10\<close>; a particle that \<open>createParticle\<close> has just made is within
  the surface.
\<close>

theorem wrap_invariant:
  assumes "list_all keepsSurface evs"
  shows "fieldInBounds
           (fst (run cfg rng (update cfg (fst (run cfg rng (started cfg rng vp ratio cw ch k) evs0))) evs))
         \<and> (0 \<le> w \<and> p_x p + p_vx p < - 10 \<longrightarrow> p_x (updateParticle cfg w h m p) = w + 10)
         \<and> (0 \<le> w \<and> w + 10 < p_x p + p_vx p \<longrightarrow> p_x (updateParticle cfg w h m p) = - 10)
         \<and> (0 \<le> h \<and> p_y p + p_vy p < - 10 \<longrightarrow> p_y (updateParticle cfg w h m p) = h + 10)
         \<and> (0 \<le> h \<and> h + 10 < p_y p + p_vy p \<longrightarrow> p_y (updateParticle cfg w h m p) = - 10)
         \<and> (uniformDraws rng \<and> 0 \<le> w \<and> 0 \<le> h \<longrightarrow> inBounds w h (createParticle cfg w h rng n))"
proof -
  let ?s0 = "fst (run cfg rng (started cfg rng vp ratio cw ch k) evs0)"
  have "wrapInvariant (update cfg ?s0)"
    by (rule update_wrapInvariant) (rule reachable_surfaceOk)
  then have "wrapInvariant (fst (run cfg rng (update cfg ?s0) evs))"
    using assms by (rule run_invariant) (rule step_wrapInvariant)
  then show ?thesis
    using createParticle_inBounds [of rng w h cfg n]
    by (simp add: wrapInvariant_def updateParticle_x updateParticle_y Let_def)
qed

theorem wrap_invariant_witness:
  "list_all keepsSurface [MouseMove 10 10 0 0, AnimationFrame]
   \<and> fieldInBounds
       (fst (run CONFIG halfDraws
          (update CONFIG (fst (run CONFIG halfDraws (started CONFIG halfDraws refViewport 1 300 150 0)
             [ResizeTimeout refViewport])))
          [MouseMove 10 10 0 0, AnimationFrame]))
   \<and> length (particles
       (fst (run CONFIG halfDraws
          (update CONFIG (fst (run CONFIG halfDraws (started CONFIG halfDraws refViewport 1 300 150 0) [])))
          [MouseMove 10 10 0 0, AnimationFrame]))) = 60
   \<and> p_x (updateParticle CONFIG 1366 768 idleMouse (particleAt (- 10) 778 (- 1) 1)) = 1376
   \<and> p_y (updateParticle CONFIG 1366 768 idleMouse (particleAt (- 10) 778 (- 1) 1)) = - 10
   \<and> p_x (updateParticle CONFIG 1366 768 idleMouse (particleAt 1376 (- 10) 1 (- 1))) = - 10
   \<and> p_y (updateParticle CONFIG 1366 768 idleMouse (particleAt 1376 (- 10) 1 (- 1))) = 778
   \<and> inBounds 1366 768 (createParticle CONFIG 1366 768 halfDraws 0)"
proof -
  have evs: "list_all keepsSurface [MouseMove 10 10 0 0, AnimationFrame]"
    by simp
  have len: "length (particles
       (fst (run CONFIG halfDraws
          (update CONFIG (fst (run CONFIG halfDraws (started CONFIG halfDraws refViewport 1 300 150 0) [])))
          [MouseMove 10 10 0 0, AnimationFrame]))) = 60"
    unfolding run_length [OF evs] by (simp add: started_length targetCount_ref)
  show ?thesis
    using wrap_invariant [OF evs, where cfg = CONFIG and rng = halfDraws and vp = refViewport
          and ratio = 1 and cw = 300 and ch = 150 and k = 0 and ?evs0.0 = "[ResizeTimeout refViewport]"
          and w = 1366 and h = 768 and m = idleMouse and n = 0
          and p = "particleAt (- 10) 778 (- 1) 1"]
      wrap_invariant [OF evs, where cfg = CONFIG and rng = halfDraws and vp = refViewport
          and ratio = 1 and cw = 300 and ch = 150 and k = 0 and ?evs0.0 = "[ResizeTimeout refViewport]"
          and w = 1366 and h = 768 and m = idleMouse and n = 0
          and p = "particleAt 1376 (- 10) 1 (- 1)"]
      len evs uniformDraws_halfDraws
    by (simp add: particleAt_def)
qed

subsection \<open>The velocity bound\<close>

lemma createParticle_velocity:
  assumes "uniformDraws rng" and "0 \<le> speedRange cfg"
  shows "\<bar>p_vx (createParticle cfg w h rng k)\<bar> \<le> speedRange cfg / 2"
    and "\<bar>p_vy (createParticle cfg w h rng k)\<bar> \<le> speedRange cfg / 2"
proof -
  have half: "\<bar>r - 0.5\<bar> \<le> 1 / 2" if "0 \<le> r" "r < 1" for r :: real
    using that unfolding abs_le_iff by simp
  have "\<bar>(r - 0.5) * speedRange cfg\<bar> \<le> speedRange cfg / 2" if "0 \<le> r" "r < 1" for r :: real
    using mult_right_mono [OF half [OF that] assms(2)] assms(2)
    by (simp add: abs_mult)
  then show "\<bar>p_vx (createParticle cfg w h rng k)\<bar> \<le> speedRange cfg / 2"
    and "\<bar>p_vy (createParticle cfg w h rng k)\<bar> \<le> speedRange cfg / 2"
    using assms(1) by (simp_all add: createParticle_def uniformDraws_def)
qed

lemma createParticle_velocityBounded:
  assumes "uniformDraws rng" and "0 \<le> speedRange cfg"
  shows "velocityBounded cfg (createParticle cfg w h rng k)"
  using createParticle_velocity [OF assms, of w h k] assms(2)
  by (simp add: velocityBounded_def)

lemma wrapEdges_velocity [simp]:
  "p_vx (wrapEdges w h p) = p_vx p" "p_vy (wrapEdges w h p) = p_vy p"
  by (simp_all add: wrapEdges_def Let_def)

lemma updateParticle_velocity_branch:
  assumes "inPointerBranch cfg w h m p"
  shows "p_vx (updateParticle cfg w h m p) =
           max (- (speedRange cfg * 2.2))
             (min (speedRange cfg * 2.2) (p_vx (applyForce cfg m (wrapEdges w h (applyVelocity p))))) * 0.995"
    and "p_vy (updateParticle cfg w h m p) =
           max (- (speedRange cfg * 2.2))
             (min (speedRange cfg * 2.2) (p_vy (applyForce cfg m (wrapEdges w h (applyVelocity p))))) * 0.995"
  using assms
  by (simp_all add: inPointerBranch_def updateParticle_def mouseInteraction_def damping_def
      clampVelocity_def Let_def)

lemma updateParticle_velocity_free:
  assumes "\<not> inPointerBranch cfg w h m p"
  shows "p_vx (updateParticle cfg w h m p) = p_vx p * 0.995"
    and "p_vy (updateParticle cfg w h m p) = p_vy p * 0.995"
  using assms
  by (auto simp add: inPointerBranch_def updateParticle_def mouseInteraction_def damping_def
      applyVelocity_def)

lemma clamp_abs:
  fixes v b :: real
  assumes "0 \<le> b"
  shows "\<bar>max (- b) (min b v) * 0.995\<bar> \<le> 0.995 * b"
proof -
  have "\<bar>max (- b) (min b v)\<bar> \<le> b"
    using assms by (auto simp add: abs_le_iff max_def min_def)
  then have "\<bar>max (- b) (min b v)\<bar> * 0.995 \<le> b * 0.995"
    by (rule mult_right_mono) simp
  then show ?thesis
    by (simp add: abs_mult mult.commute)
qed

lemma damp_abs:
  fixes v b :: real
  assumes "\<bar>v\<bar> \<le> b"
  shows "\<bar>v * 0.995\<bar> \<le> b"
proof -
  have "\<bar>v\<bar> * 0.995 \<le> \<bar>v\<bar> * 1"
    by (rule mult_left_mono) simp_all
  then show ?thesis
    using assms by (simp add: abs_mult)
qed

lemma updateParticle_branch_bound:
  assumes "0 \<le> speedRange cfg" and "inPointerBranch cfg w h m p"
  shows "\<bar>p_vx (updateParticle cfg w h m p)\<bar> \<le> 0.995 * (speedRange cfg * 2.2)"
    and "\<bar>p_vy (updateParticle cfg w h m p)\<bar> \<le> 0.995 * (speedRange cfg * 2.2)"
proof -
  have b: "0 \<le> speedRange cfg * 2.2"
    using assms(1) by simp
  show "\<bar>p_vx (updateParticle cfg w h m p)\<bar> \<le> 0.995 * (speedRange cfg * 2.2)"
    unfolding updateParticle_velocity_branch [OF assms(2)] by (rule clamp_abs [OF b])
  show "\<bar>p_vy (updateParticle cfg w h m p)\<bar> \<le> 0.995 * (speedRange cfg * 2.2)"
    unfolding updateParticle_velocity_branch [OF assms(2)] by (rule clamp_abs [OF b])
qed

lemma updateParticle_velocityBounded:
  assumes "0 \<le> speedRange cfg" and "velocityBounded cfg p"
  shows "velocityBounded cfg (updateParticle cfg w h m p)"
proof (cases "inPointerBranch cfg w h m p")
  case True
  have "0.995 * (speedRange cfg * 2.2) \<le> 2.2 * speedRange cfg"
    using assms(1) by simp
  with updateParticle_branch_bound [OF assms(1) True] show ?thesis
    unfolding velocityBounded_def by linarith
next
  case False
  from assms(2) have vx: "\<bar>p_vx p\<bar> \<le> 2.2 * speedRange cfg"
    and vy: "\<bar>p_vy p\<bar> \<le> 2.2 * speedRange cfg"
    unfolding velocityBounded_def by blast+
  have "\<bar>p_vx p * 0.995\<bar> \<le> 2.2 * speedRange cfg"
    and "\<bar>p_vy p * 0.995\<bar> \<le> 2.2 * speedRange cfg"
    by (rule damp_abs [OF vx], rule damp_abs [OF vy])
  then show ?thesis
    unfolding velocityBounded_def updateParticle_velocity_free [OF False] by blast
qed

lemma freshParticles_velocityBounded:
  assumes "uniformDraws rng" and "0 \<le> speedRange cfg"
  shows "list_all (velocityBounded cfg) (freshParticles cfg w h rng k n)"
  by (simp add: freshParticles_def list_all_iff createParticle_velocityBounded [OF assms])

lemma reconcile_velocityBounded:
  assumes "uniformDraws rng" and "0 \<le> speedRange cfg" and "fieldVelocityBounded cfg s"
  shows "fieldVelocityBounded cfg (reconcile cfg rng c s)"
proof -
  have "list_all (velocityBounded cfg) (slice0 (particles s) c)"
    using assms(3) set_take_subset [of _ "particles s"]
    by (auto simp add: fieldVelocityBounded_def slice0_def Let_def list_all_iff)
  then show ?thesis
    using assms(3) freshParticles_velocityBounded [OF assms(1,2)]
    by (simp add: reconcile_def pushParticles_eq fieldVelocityBounded_def)
qed

lemma loop_velocityBounded:
  assumes "0 \<le> speedRange cfg" and "fieldVelocityBounded cfg s"
  shows "fieldVelocityBounded cfg (fst (loop cfg s))"
  using assms(2) updateParticle_velocityBounded [OF assms(1)]
  by (simp add: fieldVelocityBounded_def list_all_iff)

lemma step_velocityBounded:
  assumes "uniformDraws rng" and "0 \<le> speedRange cfg" and "fieldVelocityBounded cfg s"
  shows "fieldVelocityBounded cfg (fst (step cfg rng s e))"
proof (cases e)
  case AnimationFrame
  from assms(3) have "fieldVelocityBounded cfg (fst (animationFrame cfg s))"
    by (rule animationFrame_invariant)
      (simp_all add: loop_velocityBounded [OF assms(2)], simp_all add: fieldVelocityBounded_def)
  with AnimationFrame show ?thesis by simp
next
  case (VisibilityChange v)
  from assms(3) have "fieldVelocityBounded cfg (s\<lparr>isRunning := v\<rparr>)"
    by (simp add: fieldVelocityBounded_def)
  then show ?thesis
    using VisibilityChange loop_velocityBounded [OF assms(2), of "s\<lparr>isRunning := v\<rparr>"]
    by (cases v) (simp_all add: onVisibilityChange_eq)
next
  case (ResizeTimeout vp)
  from assms(3) have "fieldVelocityBounded cfg (resize cfg rng vp s)"
    unfolding resize_eq
    by (intro reconcile_velocityBounded [OF assms(1,2)]) (simp add: fieldVelocityBounded_def)
  with ResizeTimeout show ?thesis by simp
qed (use assms(3) in \<open>simp_all add: fieldVelocityBounded_def onTouchEnd_def\<close>)

lemma started_velocityBounded:
  assumes "uniformDraws rng" and "0 \<le> speedRange cfg"
  shows "fieldVelocityBounded cfg (started cfg rng vp ratio cw ch k)"
proof -
  have "fieldVelocityBounded cfg (initial ratio cw ch k)"
    by (simp add: fieldVelocityBounded_def initial_def)
  then have "fieldVelocityBounded cfg (resize cfg rng vp (initial ratio cw ch k))"
    unfolding resize_eq
    by (intro reconcile_velocityBounded [OF assms]) (simp add: fieldVelocityBounded_def)
  then show ?thesis
    unfolding started_def init_def by (rule loop_velocityBounded [OF assms(2)])
qed

text \<open>
  Claim C2. With draws of \<open>Math.random\<close> in \<open>[0, 1)\<close> and a speed range that is not
  negative, in every state the started animator reaches, after any events, each velocity
  component of each particle is at most \<open>2.2 \<times> speedRange\<close> in absolute value. A new
  particle's components are within \<open>speedRange / 2\<close>; in the pointer branch the update
  leaves them within the clamp's \<open>2.2 \<times> speedRange\<close>, damped by 0.995; outside that
  branch the update only multiplies them by 0.995.
\<close>

theorem velocity_bound:
  assumes "uniformDraws rng" and "0 \<le> speedRange cfg"
  shows "fieldVelocityBounded cfg (fst (run cfg rng (started cfg rng vp ratio cw ch k) evs))
         \<and> \<bar>p_vx (createParticle cfg w h rng n)\<bar> \<le> speedRange cfg / 2
         \<and> \<bar>p_vy (createParticle cfg w h rng n)\<bar> \<le> speedRange cfg / 2
         \<and> (inPointerBranch cfg w h m p \<longrightarrow>
              \<bar>p_vx (updateParticle cfg w h m p)\<bar> \<le> 0.995 * (speedRange cfg * 2.2)
              \<and> \<bar>p_vy (updateParticle cfg w h m p)\<bar> \<le> 0.995 * (speedRange cfg * 2.2))
         \<and> (\<not> inPointerBranch cfg w h m p \<longrightarrow>
              p_vx (updateParticle cfg w h m p) = p_vx p * 0.995
              \<and> p_vy (updateParticle cfg w h m p) = p_vy p * 0.995)"
proof -
  have "fieldVelocityBounded cfg (fst (run cfg rng (started cfg rng vp ratio cw ch k) evs))"
    by (rule run_invariant [where Q = "\<lambda>e. True"])
      (simp_all add: started_velocityBounded [OF assms] step_velocityBounded [OF assms] list_all_iff)
  then show ?thesis
    using createParticle_velocity [OF assms, of w h n]
      updateParticle_branch_bound [OF assms(2), of w h m p]
      updateParticle_velocity_free [of cfg w h m p]
    by blast
qed

theorem velocity_bound_witness:
  "uniformDraws halfDraws \<and> 0 \<le> speedRange CONFIG
   \<and> fieldVelocityBounded CONFIG
       (fst (run CONFIG halfDraws (started CONFIG halfDraws refViewport 1 300 150 0)
          [MouseMove 683 384 0 0, AnimationFrame, MouseLeave, AnimationFrame]))
   \<and> length (particles
       (fst (run CONFIG halfDraws (started CONFIG halfDraws refViewport 1 300 150 0)
          [MouseMove 683 384 0 0, AnimationFrame, MouseLeave, AnimationFrame]))) = 60
   \<and> \<bar>p_vx (createParticle CONFIG 1366 768 halfDraws 0)\<bar> \<le> speedRange CONFIG / 2
   \<and> \<bar>p_vy (createParticle CONFIG 1366 768 halfDraws 0)\<bar> \<le> speedRange CONFIG / 2
   \<and> inPointerBranch CONFIG 1366 768 (pointerAt 0 0) (particleAt 3 4 0 0)
   \<and> \<bar>p_vx (updateParticle CONFIG 1366 768 (pointerAt 0 0) (particleAt 3 4 0 0))\<bar>
        \<le> 0.995 * (speedRange CONFIG * 2.2)
   \<and> \<bar>p_vy (updateParticle CONFIG 1366 768 (pointerAt 0 0) (particleAt 3 4 0 0))\<bar>
        \<le> 0.995 * (speedRange CONFIG * 2.2)
   \<and> \<not> inPointerBranch CONFIG 1366 768 idleMouse (particleAt 3 4 1 1)
   \<and> p_vx (updateParticle CONFIG 1366 768 idleMouse (particleAt 3 4 1 1)) = 1 * 0.995
   \<and> p_vy (updateParticle CONFIG 1366 768 idleMouse (particleAt 3 4 1 1)) = 1 * 0.995"
proof -
  have sr: "0 \<le> speedRange CONFIG"
    by (simp add: CONFIG_def)
  have near: "inPointerBranch CONFIG 1366 768 (pointerAt 0 0) (particleAt 3 4 0 0)"
    by (simp add: inPointerBranch_def pointerAt_def particleAt_def mouseDist_def wrapEdges_def
        applyVelocity_def to_number_def CONFIG_def sqrt_25)
  have away: "\<not> inPointerBranch CONFIG 1366 768 idleMouse (particleAt 3 4 1 1)"
    by (simp add: inPointerBranch_def idleMouse_def)
  have len: "length (particles
       (fst (run CONFIG halfDraws (started CONFIG halfDraws refViewport 1 300 150 0)
          [MouseMove 683 384 0 0, AnimationFrame, MouseLeave, AnimationFrame]))) = 60"
    by (subst run_length) (simp_all add: started_length targetCount_ref)
  show ?thesis
    using velocity_bound [OF uniformDraws_halfDraws sr, where vp = refViewport
          and ratio = 1 and cw = 300 and ch = 150 and k = 0
          and evs = "[MouseMove 683 384 0 0, AnimationFrame, MouseLeave, AnimationFrame]"
          and w = 1366 and h = 768 and n = 0 and m = "pointerAt 0 0" and p = "particleAt 3 4 0 0"]
      velocity_bound [OF uniformDraws_halfDraws sr, where vp = refViewport
          and ratio = 1 and cw = 300 and ch = 150 and k = 0
          and evs = "[MouseMove 683 384 0 0, AnimationFrame, MouseLeave, AnimationFrame]"
          and w = 1366 and h = 768 and n = 0 and m = idleMouse and p = "particleAt 3 4 1 1"]
      near away len uniformDraws_halfDraws sr
    by (simp add: particleAt_def)
qed

subsection \<open>The pointer's force\<close>

lemma js_or_one: "js_or d 1 \<noteq> 0"
  by (simp add: js_or_def)

lemma scaled_unit_magnitude:
  fixes c d dx dy :: real
  assumes "0 < d" and "d = sqrt (dx * dx + dy * dy)" and "0 \<le> c"
  shows "sqrt (c * (dx / d) * (c * (dx / d)) + c * (dy / d) * (c * (dy / d))) = c"
proof -
  have dd: "d * d = dx * dx + dy * dy"
    using assms(2) by (simp add: power2_eq_square [symmetric])
  have "c * (dx / d) * (c * (dx / d)) + c * (dy / d) * (c * (dy / d))
          = c * c * ((dx * dx + dy * dy) / (d * d))"
    using assms(1) by (simp add: field_simps)
  also have "\<dots> = c * c"
    using assms(1) by (simp add: dd [symmetric])
  finally show ?thesis
    using assms(3) by (simp add: power2_eq_square [symmetric])
qed

lemma mouseDist_at:
  "m_x m = Some a \<Longrightarrow> m_y m = Some b \<Longrightarrow>
     mouseDist m q = sqrt ((p_x q - a) * (p_x q - a) + (p_y q - b) * (p_y q - b))"
  by (simp add: mouseDist_def to_number_def Let_def)

lemma forceAdded_repel:
  assumes "m_x m = Some a" and "m_y m = Some b" and "repel cfg" and "mouseDist m q \<noteq> 0"
  shows "forceAdded cfg m q =
     (forceStrength cfg (mouseDist m q) * ((p_x q - a) / mouseDist m q),
      forceStrength cfg (mouseDist m q) * ((p_y q - b) / mouseDist m q))"
  using assms(3,4) unfolding mouseDist_at [OF assms(1,2)]
  by (simp add: forceAdded_def applyForce_def forceStrength_def Let_def js_or_def to_number_def assms(1,2))

lemma forceAdded_attract:
  assumes "m_x m = Some a" and "m_y m = Some b" and "\<not> repel cfg" and "mouseDist m q \<noteq> 0"
  shows "forceAdded cfg m q =
     (- (0.15 * forceStrength cfg (mouseDist m q) * ((p_x q - a) / mouseDist m q)),
      - (0.15 * forceStrength cfg (mouseDist m q) * ((p_y q - b) / mouseDist m q)))"
  using assms(3,4) unfolding mouseDist_at [OF assms(1,2)]
  by (simp add: forceAdded_def applyForce_def forceStrength_def Let_def js_or_def to_number_def assms(1,2))

lemma applyForce_at_pointer:
  assumes "mouseDist m q = 0"
  shows "applyForce cfg m q = q"
proof -
  let ?dx = "p_x q - to_number (m_x m)" and ?dy = "p_y q - to_number (m_y m)"
  from assms have "?dx * ?dx + ?dy * ?dy = 0"
    by (simp add: mouseDist_def Let_def)
  then have "?dx = 0" and "?dy = 0"
    by simp_all
  then show ?thesis
    by (simp add: applyForce_def Let_def)
qed

lemma forceStrength_range:
  assumes "0 \<le> d" and "d < mouseRadius cfg"
  shows "0 < forceStrength cfg d" and "forceStrength cfg d \<le> 0.6"
proof -
  have R: "0 < mouseRadius cfg" using assms by simp
  then have "d / mouseRadius cfg < 1" and "0 \<le> d / mouseRadius cfg"
    using assms by simp_all
  then have pos: "0 < 1 - d / mouseRadius cfg" and le: "1 - d / mouseRadius cfg \<le> 1"
    by simp_all
  from pos show "0 < forceStrength cfg d"
    unfolding forceStrength_def by (intro mult_pos_pos) simp_all
  have "(1 - d / mouseRadius cfg) * 0.6 \<le> 1 * 0.6"
    using le by (intro mult_right_mono) simp_all
  then show "forceStrength cfg d \<le> 0.6"
    unfolding forceStrength_def by simp
qed

lemma mouseDist_nonneg: "0 \<le> mouseDist m q"
  by (simp add: mouseDist_def Let_def)

lemma magnitude_repel:
  assumes "m_x m = Some a" and "m_y m = Some b" and "repel cfg"
    and "0 < mouseDist m q" and "mouseDist m q < mouseRadius cfg"
  shows "magnitude (forceAdded cfg m q) = forceStrength cfg (mouseDist m q)"
proof -
  have ne: "mouseDist m q \<noteq> 0" using assms(4) by simp
  have f: "0 \<le> forceStrength cfg (mouseDist m q)"
    using forceStrength_range(1) [OF mouseDist_nonneg assms(5)] by simp
  show ?thesis
    unfolding forceAdded_repel [OF assms(1,2,3) ne] magnitude_def fst_conv snd_conv
    by (rule scaled_unit_magnitude [OF assms(4) mouseDist_at [OF assms(1,2)] f])
qed

lemma magnitude_attract:
  assumes "m_x m = Some a" and "m_y m = Some b" and "\<not> repel cfg"
    and "0 < mouseDist m q" and "mouseDist m q < mouseRadius cfg"
  shows "magnitude (forceAdded cfg m q) = 0.15 * forceStrength cfg (mouseDist m q)"
proof -
  have ne: "mouseDist m q \<noteq> 0" using assms(4) by simp
  have f: "0 \<le> 0.15 * forceStrength cfg (mouseDist m q)"
    using forceStrength_range(1) [OF mouseDist_nonneg assms(5)] by simp
  have "magnitude (forceAdded cfg m q) =
      sqrt (0.15 * forceStrength cfg (mouseDist m q) * ((p_x q - a) / mouseDist m q)
              * (0.15 * forceStrength cfg (mouseDist m q) * ((p_x q - a) / mouseDist m q))
            + 0.15 * forceStrength cfg (mouseDist m q) * ((p_y q - b) / mouseDist m q)
              * (0.15 * forceStrength cfg (mouseDist m q) * ((p_y q - b) / mouseDist m q)))"
    unfolding forceAdded_attract [OF assms(1,2,3) ne] magnitude_def fst_conv snd_conv
    by simp
  also have "\<dots> = 0.15 * forceStrength cfg (mouseDist m q)"
    by (rule scaled_unit_magnitude [OF assms(4) mouseDist_at [OF assms(1,2)] f])
  finally show ?thesis .
qed

lemma updateParticle_near:
  assumes "m_active m" and "m_x m \<noteq> None"
    and "mouseDist m (wrapEdges w h (applyVelocity p)) < mouseRadius cfg"
  shows "updateParticle cfg w h m p =
           damping (clampVelocity cfg (applyForce cfg m (wrapEdges w h (applyVelocity p))))"
  using assms by (simp add: updateParticle_def mouseInteraction_def)

lemma updateParticle_far:
  assumes "mouseRadius cfg \<le> mouseDist m (wrapEdges w h (applyVelocity p))"
  shows "updateParticle cfg w h m p = damping (wrapEdges w h (applyVelocity p))"
  using assms by (simp add: updateParticle_def mouseInteraction_def)

lemma sqrt_pythagoras:
  fixes a b c :: real
  assumes "a * a + b * b = c * c" and "0 \<le> c"
  shows "sqrt (a * a + b * b) = c"
  using assms by (simp add: power2_eq_square [symmetric])

lemma still_particle: "wrapEdges 1366 768 (applyVelocity (particleAt 3 4 0 0)) = particleAt 3 4 0 0"
  by (simp add: wrapEdges_def applyVelocity_def particleAt_def)

lemma moving_particle: "wrapEdges 1366 768 (applyVelocity (particleAt 299 398 1 2)) = particleAt 300 400 1 2"
  by (simp add: wrapEdges_def applyVelocity_def particleAt_def)

lemma resting_particle: "wrapEdges 1366 768 (applyVelocity (particleAt 5 5 0 0)) = particleAt 5 5 0 0"
  by (simp add: wrapEdges_def applyVelocity_def particleAt_def)

lemma mouseDist_pointerAt:
  "mouseDist (pointerAt a b) (particleAt c d va vb) = sqrt ((c - a) * (c - a) + (d - b) * (d - b))"
  by (simp add: mouseDist_def pointerAt_def particleAt_def to_number_def Let_def)

lemma dist_5: "mouseDist (pointerAt 0 0) (particleAt 3 4 0 0) = 5"
  unfolding mouseDist_pointerAt by (rule sqrt_pythagoras) simp_all

lemma dist_500: "mouseDist (pointerAt 0 0) (particleAt 300 400 1 2) = 500"
  unfolding mouseDist_pointerAt by (rule sqrt_pythagoras) simp_all

lemma dist_0: "mouseDist (pointerAt 5 5) (particleAt 5 5 0 0) = 0"
  unfolding mouseDist_pointerAt by simp

text \<open>
  Claim C8, amended. Let the pointer be active at \<open>(a, b)\<close> and \<open>q\<close> be the particle after
  the move and the wrap, at the distance \<open>d\<close> from the pointer. For \<open>0 < d < mouseRadius\<close>
  the force step adds to the velocity the vector of length \<open>(1 - d / mouseRadius) \<times> 0.6\<close>
  along the unit vector from the pointer to the particle in repel mode, and 0.15 times
  that vector, reversed, in attract mode; the clamp and the damping follow. At \<open>d = 0\<close>
  nothing is added. At \<open>d \<ge> mouseRadius\<close> the velocity is only damped.
\<close>

theorem pointer_force:
  assumes "m_active m" and "m_x m = Some a" and "m_y m = Some b"
    and "q = wrapEdges w h (applyVelocity p)"
  shows "(0 < mouseDist m q \<and> mouseDist m q < mouseRadius cfg \<and> repel cfg \<longrightarrow>
            forceAdded cfg m q =
              (forceStrength cfg (mouseDist m q) * ((p_x q - a) / mouseDist m q),
               forceStrength cfg (mouseDist m q) * ((p_y q - b) / mouseDist m q))
            \<and> magnitude (forceAdded cfg m q) = forceStrength cfg (mouseDist m q))
       \<and> (0 < mouseDist m q \<and> mouseDist m q < mouseRadius cfg \<and> \<not> repel cfg \<longrightarrow>
            forceAdded cfg m q =
              (- (0.15 * forceStrength cfg (mouseDist m q) * ((p_x q - a) / mouseDist m q)),
               - (0.15 * forceStrength cfg (mouseDist m q) * ((p_y q - b) / mouseDist m q)))
            \<and> magnitude (forceAdded cfg m q) = 0.15 * forceStrength cfg (mouseDist m q))
       \<and> (mouseDist m q < mouseRadius cfg \<longrightarrow>
            0 < forceStrength cfg (mouseDist m q) \<and> forceStrength cfg (mouseDist m q) \<le> 0.6
            \<and> updateParticle cfg w h m p = damping (clampVelocity cfg (applyForce cfg m q)))
       \<and> (mouseDist m q = 0 \<longrightarrow> forceAdded cfg m q = (0, 0))
       \<and> (mouseRadius cfg \<le> mouseDist m q \<longrightarrow>
            updateParticle cfg w h m p = damping q
            \<and> p_vx (updateParticle cfg w h m p) = p_vx p * 0.995
            \<and> p_vy (updateParticle cfg w h m p) = p_vy p * 0.995)"
proof -
  have x: "m_x m \<noteq> None" using assms(2) by simp
  have far: "p_vx (damping q) = p_vx p * 0.995" "p_vy (damping q) = p_vy p * 0.995"
    by (simp_all add: damping_def assms(4) applyVelocity_def)
  show ?thesis
    using forceAdded_repel [OF assms(2,3), of cfg q] magnitude_repel [OF assms(2,3), of cfg q]
      forceAdded_attract [OF assms(2,3), of cfg q] magnitude_attract [OF assms(2,3), of cfg q]
      forceStrength_range [OF mouseDist_nonneg, of m q cfg]
      updateParticle_near [OF assms(1) x, of w h p cfg]
      updateParticle_far [of cfg m w h p] far
      applyForce_at_pointer [of m q cfg]
    unfolding assms(4) [symmetric]
    by (auto simp add: forceAdded_def)
qed

theorem pointer_force_witness:
  "m_active (pointerAt 0 0)
   \<and> mouseDist (pointerAt 0 0) (particleAt 3 4 0 0) = 5
   \<and> forceStrength CONFIG 5 = 0.575
   \<and> forceAdded CONFIG (pointerAt 0 0) (particleAt 3 4 0 0) = (0.345, 0.46)
   \<and> magnitude (forceAdded CONFIG (pointerAt 0 0) (particleAt 3 4 0 0)) = 0.575
   \<and> forceAdded (CONFIG\<lparr>repel := False\<rparr>) (pointerAt 0 0) (particleAt 3 4 0 0) = (- 0.05175, - 0.069)
   \<and> magnitude (forceAdded (CONFIG\<lparr>repel := False\<rparr>) (pointerAt 0 0) (particleAt 3 4 0 0)) = 0.08625
   \<and> updateParticle CONFIG 1366 768 (pointerAt 0 0) (particleAt 3 4 0 0)
        = damping (clampVelocity CONFIG (applyForce CONFIG (pointerAt 0 0) (particleAt 3 4 0 0)))
   \<and> mouseDist (pointerAt 5 5) (particleAt 5 5 0 0) = 0
   \<and> forceAdded CONFIG (pointerAt 5 5) (particleAt 5 5 0 0) = (0, 0)
   \<and> mouseDist (pointerAt 0 0) (particleAt 300 400 1 2) = 500
   \<and> p_vx (updateParticle CONFIG 1366 768 (pointerAt 0 0) (particleAt 299 398 1 2)) = 1 * 0.995
   \<and> p_vy (updateParticle CONFIG 1366 768 (pointerAt 0 0) (particleAt 299 398 1 2)) = 2 * 0.995"
proof -
  have act: "m_active (pointerAt a b)" and mx: "m_x (pointerAt a b) = Some a"
    and my: "m_y (pointerAt a b) = Some b" for a b
    by (simp_all add: pointerAt_def)
  have f: "forceStrength CONFIG 5 = 0.575" "forceStrength (CONFIG\<lparr>repel := False\<rparr>) 5 = 0.575"
    by (simp_all add: forceStrength_def CONFIG_def)
  have c: "repel CONFIG" "\<not> repel (CONFIG\<lparr>repel := False\<rparr>)"
    "mouseRadius CONFIG = 120" "mouseRadius (CONFIG\<lparr>repel := False\<rparr>) = 120"
    by (simp_all add: CONFIG_def)
  have pos: "p_x (particleAt x y va vb) = x" "p_y (particleAt x y va vb) = y"
    "p_vx (particleAt x y va vb) = va" "p_vy (particleAt x y va vb) = vb" for x y va vb
    by (simp_all add: particleAt_def)
  note near = pointer_force [OF act mx my still_particle [symmetric], of 0 0 CONFIG]
  note attract = pointer_force [OF act mx my still_particle [symmetric], of 0 0 "CONFIG\<lparr>repel := False\<rparr>"]
  note zero = pointer_force [OF act mx my resting_particle [symmetric], of 5 5 CONFIG]
  note far = pointer_force [OF act mx my moving_particle [symmetric], of 0 0 CONFIG]
  have r1: "forceAdded CONFIG (pointerAt 0 0) (particleAt 3 4 0 0) = (0.345, 0.46)"
    using near by (auto simp add: dist_5 f c pos)
  have r2: "magnitude (forceAdded CONFIG (pointerAt 0 0) (particleAt 3 4 0 0)) = 0.575"
    using near by (auto simp add: dist_5 f c pos)
  have r3: "forceAdded (CONFIG\<lparr>repel := False\<rparr>) (pointerAt 0 0) (particleAt 3 4 0 0)
      = (- 0.05175, - 0.069)"
    using attract by (auto simp add: dist_5 f c pos)
  have r4: "magnitude (forceAdded (CONFIG\<lparr>repel := False\<rparr>) (pointerAt 0 0) (particleAt 3 4 0 0))
      = 0.08625"
    using attract by (auto simp add: dist_5 f c pos)
  have r5: "updateParticle CONFIG 1366 768 (pointerAt 0 0) (particleAt 3 4 0 0)
      = damping (clampVelocity CONFIG (applyForce CONFIG (pointerAt 0 0) (particleAt 3 4 0 0)))"
    using near by (auto simp add: dist_5 c)
  have r6: "forceAdded CONFIG (pointerAt 5 5) (particleAt 5 5 0 0) = (0, 0)"
    using zero by (auto simp add: dist_0)
  have r7: "p_vx (updateParticle CONFIG 1366 768 (pointerAt 0 0) (particleAt 299 398 1 2)) = 1 * 0.995"
    using far by (auto simp add: dist_500 c pos)
  have r8: "p_vy (updateParticle CONFIG 1366 768 (pointerAt 0 0) (particleAt 299 398 1 2)) = 2 * 0.995"
    using far by (auto simp add: dist_500 c pos)
  show ?thesis
    using act [of 0 0] dist_5 f(1) r1 r2 r3 r4 r5 dist_0 r6 dist_500 r7 r8 by blast
qed

text \<open>
  Claim C8 as stated fails for a particle at the pointer: it is within the radius, the
  strength is the full 0.6, and the vector added has length 0; the update leaves its
  velocity 0.
\<close>

theorem pointer_force_counterexample:
  "m_active (pointerAt 5 5) \<and> m_x (pointerAt 5 5) \<noteq> None
   \<and> mouseDist (pointerAt 5 5) (wrapEdges 1366 768 (applyVelocity (particleAt 5 5 0 0)))
        < mouseRadius CONFIG
   \<and> forceStrength CONFIG
        (mouseDist (pointerAt 5 5) (wrapEdges 1366 768 (applyVelocity (particleAt 5 5 0 0)))) = 0.6
   \<and> magnitude (forceAdded CONFIG (pointerAt 5 5) (wrapEdges 1366 768 (applyVelocity (particleAt 5 5 0 0))))
        \<noteq> forceStrength CONFIG
            (mouseDist (pointerAt 5 5) (wrapEdges 1366 768 (applyVelocity (particleAt 5 5 0 0))))
   \<and> p_vx (updateParticle CONFIG 1366 768 (pointerAt 5 5) (particleAt 5 5 0 0)) = 0
   \<and> p_vy (updateParticle CONFIG 1366 768 (pointerAt 5 5) (particleAt 5 5 0 0)) = 0"
proof -
  have same: "applyForce CONFIG (pointerAt 5 5) (particleAt 5 5 0 0) = particleAt 5 5 0 0"
    by (rule applyForce_at_pointer) (rule dist_0)
  have near: "updateParticle CONFIG 1366 768 (pointerAt 5 5) (particleAt 5 5 0 0)
      = damping (clampVelocity CONFIG (particleAt 5 5 0 0))"
    using updateParticle_near [of "pointerAt 5 5" 1366 768 "particleAt 5 5 0 0" CONFIG]
    unfolding resting_particle dist_0 same
    by (simp add: pointerAt_def CONFIG_def)
  show ?thesis
    unfolding resting_particle dist_0 near forceAdded_def same
    by (simp add: magnitude_def forceStrength_def CONFIG_def pointerAt_def
        damping_def clampVelocity_def particleAt_def)
qed

subsection \<open>A particle at the pointer\<close>

lemma reachable_velocityBounded:
  assumes "uniformDraws rng" and "0 \<le> speedRange cfg"
  shows "fieldVelocityBounded cfg (fst (run cfg rng (started cfg rng vp ratio cw ch k) evs))"
  by (rule run_invariant [where Q = "\<lambda>e. True"])
    (simp_all add: started_velocityBounded [OF assms] step_velocityBounded [OF assms] list_all_iff)

lemma refViewport_size: "resizedWidth refViewport = 1366" "resizedHeight refViewport = 768"
  by (simp_all add: resizedWidth_def resizedHeight_def refViewport_def js_or_def)

lemma started_particles:
  "particles (started cfg rng vp ratio cw ch k) =
     map (updateParticle cfg (resizedWidth vp) (resizedHeight vp) idleMouse)
       (freshParticles cfg (resizedWidth vp) (resizedHeight vp) rng k
          (nat (targetCount cfg (resizedArea vp))))"
proof -
  have "isRunning (resize cfg rng vp (initial ratio cw ch k))"
    and "mouse (resize cfg rng vp (initial ratio cw ch k)) = idleMouse"
    by (simp_all add: initial_def idleMouse_def)
  moreover have "particles (resize cfg rng vp (initial ratio cw ch k)) =
      freshParticles cfg (resizedWidth vp) (resizedHeight vp) rng k
        (nat (targetCount cfg (resizedArea vp)))"
    by (simp add: resize_eq reconcile_def pushParticles_eq initial_def)
  ultimately show ?thesis
    by (simp add: started_def init_def)
qed

lemma centreParticle_eq:
  "centreParticle = \<lparr> p_x = 683, p_y = 384, p_size = 1.5, p_vx = 0, p_vy = 0, p_alpha = 0.55 \<rparr>"
  by (simp add: centreParticle_def createParticle_def halfDraws_def rand_def CONFIG_def
      updateParticle_def mouseInteraction_def idleMouse_def wrapEdges_def applyVelocity_def
      damping_def)

lemma centreParticle_started:
  "centreParticle \<in> set (particles (started CONFIG halfDraws refViewport 1 300 150 0))"
proof -
  have n: "nat (targetCount CONFIG (resizedArea refViewport)) = Suc 59"
    by (simp add: targetCount_ref)
  have "particles (started CONFIG halfDraws refViewport 1 300 150 0) =
      map (updateParticle CONFIG 1366 768 idleMouse)
        (freshParticles CONFIG 1366 768 halfDraws 0 (Suc 59))"
    unfolding started_particles n refViewport_size ..
  then show ?thesis
    unfolding freshParticles_Suc centreParticle_def by simp
qed

lemma clamp_id:
  fixes v b :: real
  assumes "\<bar>v\<bar> \<le> b"
  shows "max (- b) (min b v) = v"
  using assms by (auto simp add: max_def min_def abs_le_iff)

text \<open>
  Claim C9. Let \<open>p\<close> be a particle of a state the started animator reaches (draws in
  \<open>[0, 1)\<close>, speed range not negative) and let it lie, moved and wrapped, exactly at the
  active pointer. The distance is 0, the divisor \<open>dist || 1\<close> is 1 (and is never 0, at
  any distance), both components of the direction are 0, the force step changes
  nothing, and the update multiplies both velocity components by 0.995.
\<close>

theorem zero_distance_update:
  assumes "uniformDraws rng" and "0 \<le> speedRange cfg"
    and "p \<in> set (particles (fst (run cfg rng (started cfg rng vp ratio cw ch k) evs)))"
    and "m_active m" and "m_x m = Some a" and "m_y m = Some b"
    and "q = wrapEdges w h (applyVelocity p)" and "p_x q = a" and "p_y q = b"
  shows "mouseDist m q = 0
       \<and> js_or (mouseDist m q) 1 = 1
       \<and> (\<forall>d. js_or d 1 \<noteq> 0)
       \<and> (p_x q - a) / js_or (mouseDist m q) 1 = 0
       \<and> (p_y q - b) / js_or (mouseDist m q) 1 = 0
       \<and> applyForce cfg m q = q
       \<and> p_vx (updateParticle cfg w h m p) = p_vx p * 0.995
       \<and> p_vy (updateParticle cfg w h m p) = p_vy p * 0.995"
proof -
  have d: "mouseDist m q = 0"
    unfolding mouseDist_at [OF assms(5,6)] using assms(8,9) by simp
  then have same: "applyForce cfg m q = q"
    by (rule applyForce_at_pointer)
  have "velocityBounded cfg p"
    using reachable_velocityBounded [OF assms(1,2), of vp ratio cw ch k evs] assms(3)
    by (simp add: fieldVelocityBounded_def list_all_iff)
  then have vx: "\<bar>p_vx q\<bar> \<le> speedRange cfg * 2.2" and vy: "\<bar>p_vy q\<bar> \<le> speedRange cfg * 2.2"
    by (simp_all add: velocityBounded_def assms(7) applyVelocity_def mult.commute)
  have "p_vx (updateParticle cfg w h m p) = p_vx q * 0.995
      \<and> p_vy (updateParticle cfg w h m p) = p_vy q * 0.995"
  proof (cases "mouseDist m q < mouseRadius cfg")
    case True
    have x: "m_x m \<noteq> None" using assms(5) by simp
    have "clampVelocity cfg q = q"
      unfolding clampVelocity_def Let_def clamp_id [OF vx] clamp_id [OF vy] by simp
    moreover have "updateParticle cfg w h m p = damping (clampVelocity cfg q)"
      using updateParticle_near [OF assms(4) x, of w h p cfg] True same
      by (simp add: assms(7))
    ultimately show ?thesis
      by (simp add: damping_def)
  next
    case False
    then have "updateParticle cfg w h m p = damping q"
      using updateParticle_far [of cfg m w h p] by (simp add: assms(7))
    then show ?thesis
      by (simp add: damping_def)
  qed
  moreover have "p_vx q = p_vx p" and "p_vy q = p_vy p"
    by (simp_all add: assms(7) applyVelocity_def)
  ultimately show ?thesis
    using d same assms(8,9) by (simp add: js_or_def)
qed

theorem zero_distance_update_witness:
  "uniformDraws halfDraws \<and> 0 \<le> speedRange CONFIG
   \<and> centreParticle \<in> set (particles (fst (run CONFIG halfDraws (started CONFIG halfDraws refViewport 1 300 150 0) [])))
   \<and> m_active (pointerAt 683 384)
   \<and> p_x (wrapEdges 1366 768 (applyVelocity centreParticle)) = 683
   \<and> p_y (wrapEdges 1366 768 (applyVelocity centreParticle)) = 384
   \<and> mouseDist (pointerAt 683 384) (wrapEdges 1366 768 (applyVelocity centreParticle)) = 0
   \<and> applyForce CONFIG (pointerAt 683 384) (wrapEdges 1366 768 (applyVelocity centreParticle))
        = wrapEdges 1366 768 (applyVelocity centreParticle)
   \<and> p_vx (updateParticle CONFIG 1366 768 (pointerAt 683 384) centreParticle) = p_vx centreParticle * 0.995
   \<and> p_vy (updateParticle CONFIG 1366 768 (pointerAt 683 384) centreParticle) = p_vy centreParticle * 0.995"
proof -
  have sr: "0 \<le> speedRange CONFIG"
    by (simp add: CONFIG_def)
  have mem: "centreParticle \<in> set (particles (fst (run CONFIG halfDraws (started CONFIG halfDraws refViewport 1 300 150 0) [])))"
    using centreParticle_started by simp
  have act: "m_active (pointerAt 683 384)" and mx: "m_x (pointerAt 683 384) = Some 683"
    and my: "m_y (pointerAt 683 384) = Some 384"
    by (simp_all add: pointerAt_def)
  have px: "p_x (wrapEdges 1366 768 (applyVelocity centreParticle)) = 683"
    and py: "p_y (wrapEdges 1366 768 (applyVelocity centreParticle)) = 384"
    by (simp_all add: centreParticle_eq wrapEdges_def applyVelocity_def)
  show ?thesis
    using zero_distance_update [OF uniformDraws_halfDraws sr mem act mx my refl px py]
      uniformDraws_halfDraws sr mem act px py
    by simp
qed

subsection \<open>The lines of a rendering\<close>

lemma connectFrom_eq:
  "connectFrom cfg a bs =
     map (\<lambda>b. drawLine cfg a b (pairDist a b)) (filter (\<lambda>b. pairDist a b < connectDistance cfg) bs)"
  by (induction bs) simp_all

lemma connections_eq:
  "connections cfg ps =
     concat (map (\<lambda>i. connectFrom cfg (ps ! i) (drop (Suc i) ps)) [0..<length ps])"
proof (induction ps)
  case Nil
  then show ?case by simp
next
  case (Cons a rest)
  have "map (\<lambda>i. connectFrom cfg ((a # rest) ! i) (drop (Suc i) (a # rest))) [0..<Suc (length rest)]
      = connectFrom cfg a rest # map (\<lambda>i. connectFrom cfg (rest ! i) (drop (Suc i) rest)) [0..<length rest]"
    by (simp add: map_upt_Suc del: upt_Suc)
  then show ?case
    using Cons.IH by simp
qed

lemma drop_nth_upt: "drop k xs = map (\<lambda>j. xs ! j) [k..<length xs]"
proof -
  have "drop k xs = drop k (map (\<lambda>j. xs ! j) [0..<length xs])"
    by (simp add: map_nth)
  then show ?thesis
    by (simp add: drop_map)
qed

lemma pairDist_nonneg: "0 \<le> pairDist a b"
  by (simp add: pairDist_def Let_def)

lemma drawLine_below:
  assumes "0 \<le> lineAlpha cfg" and "pairDist a b < connectDistance cfg"
  shows "drawLine cfg a b (pairDist a b) = lineBetween cfg a b"
proof -
  have "0 < connectDistance cfg"
    using pairDist_nonneg [of a b] assms(2) by simp
  then have "pairDist a b / connectDistance cfg < 1"
    using assms(2) by simp
  then have "0 \<le> lineAlpha cfg * (1 - pairDist a b / connectDistance cfg)"
    using assms(1) by simp
  then show ?thesis
    by (simp add: drawLine_def lineBetween_def Let_def max_def)
qed

lemma connectFrom_lines:
  assumes "0 \<le> lineAlpha cfg"
  shows "connectFrom cfg a bs =
     map (lineBetween cfg a) (filter (\<lambda>b. pairDist a b < connectDistance cfg) bs)"
  unfolding connectFrom_eq using drawLine_below [OF assms] by simp

lemma connections_indexPairs:
  assumes "0 \<le> lineAlpha cfg"
  shows "connections cfg ps =
     map (\<lambda>(i, j). lineBetween cfg (ps ! i) (ps ! j))
       (filter (\<lambda>(i, j). pairDist (ps ! i) (ps ! j) < connectDistance cfg) (indexPairs (length ps)))"
proof -
  have inner: "connectFrom cfg (ps ! i) (drop (Suc i) ps) =
      map (\<lambda>(i, j). lineBetween cfg (ps ! i) (ps ! j))
        (filter (\<lambda>(i, j). pairDist (ps ! i) (ps ! j) < connectDistance cfg)
           (map (Pair i) [i + 1..<length ps]))" for i
    unfolding connectFrom_lines [OF assms] drop_nth_upt [of "Suc i" ps]
    by (simp add: filter_map comp_def)
  show ?thesis
    unfolding connections_eq indexPairs_def filter_concat map_concat
    by (simp add: inner comp_def)
qed

lemma filter_isLine_connectFrom: "filter isLine (connectFrom cfg a bs) = connectFrom cfg a bs"
  by (induction bs) (simp_all add: drawLine_def Let_def)

lemma filter_isLine_connections: "filter isLine (connections cfg ps) = connections cfg ps"
  by (induction ps) (simp_all add: filter_isLine_connectFrom)

lemma render_lines_connections: "filter isLine (render cfg s) = connections cfg (particles s)"
  by (simp add: render_def clear_def filter_isLine_connections drawParticle_def mouseHalo_def
      Let_def comp_def)

lemma set_indexPairs: "set (indexPairs n) = {(i, j). i < j \<and> j < n}"
  by (force simp add: indexPairs_def)

lemma distinct_indexPairs: "distinct (indexPairs n)"
proof -
  have "inj_on (\<lambda>i. map (Pair i) [i + 1..<n]) {0..<n}"
  proof (rule inj_onI)
    fix x y
    assume x: "x \<in> {0..<n}" and y: "y \<in> {0..<n}"
      and eq: "map (Pair x) [x + 1..<n] = map (Pair y) [y + 1..<n]"
    from eq have "length (map (Pair x) [x + 1..<n]) = length (map (Pair y) [y + 1..<n])"
      by simp
    then show "x = y"
      using x y by simp
  qed
  then have rows: "distinct (map (\<lambda>i. map (Pair i) [i + 1..<n]) [0..<n])"
    by (simp add: distinct_map)
  show ?thesis
    unfolding indexPairs_def
    by (rule distinct_concat [OF rows]) (auto simp add: distinct_map inj_on_def)
qed

lemma sqrt_14400: "sqrt 14400 = 120"
  by (rule real_sqrt_unique) simp_all

lemma indexPairs_3: "indexPairs 3 = [(0, 1), (0, 2), (1, 2)]"
  by (simp add: indexPairs_def upt_rec)

text \<open>
  Claim C5. With a line opacity that is not negative, the segments that \<open>render\<close> strokes
  are, in the order of its loops, one for each pair of indices \<open>i < j\<close> whose particles are
  at a distance strictly below \<open>connectDistance\<close>, from the one particle to the other
  with the opacity \<open>lineAlpha \<times> (1 - dist / connectDistance)\<close>, and no others; the pairs
  visited are all pairs \<open>i < j\<close> below the length, each once. At the distance
  \<open>connectDistance\<close> itself no line is drawn and \<open>drawLine\<close> would give the opacity 0; at
  the distance 0 the opacity is \<open>lineAlpha\<close>.
\<close>

theorem render_lines:
  assumes "0 \<le> lineAlpha cfg"
  shows "filter isLine (render cfg s) =
           map (\<lambda>(i, j). lineBetween cfg (particles s ! i) (particles s ! j))
             (filter (\<lambda>(i, j). pairDist (particles s ! i) (particles s ! j) < connectDistance cfg)
                (indexPairs (length (particles s))))
       \<and> distinct (indexPairs n)
       \<and> set (indexPairs n) = {(i, j). i < j \<and> j < n}
       \<and> (connectDistance cfg \<noteq> 0 \<longrightarrow>
            drawLine cfg a b (connectDistance cfg)
              = StrokeLine (rgba cfg 0) 0.5 (p_x a) (p_y a) (p_x b) (p_y b))
       \<and> drawLine cfg a b 0 = StrokeLine (rgba cfg (lineAlpha cfg)) 0.5 (p_x a) (p_y a) (p_x b) (p_y b)"
  using assms
  by (simp add: render_lines_connections connections_indexPairs distinct_indexPairs set_indexPairs
      drawLine_def Let_def max_def)

theorem render_lines_witness:
  "0 \<le> lineAlpha CONFIG
   \<and> pairDist (particleAt 0 0 0 0) (particleAt 0 120 0 0) = connectDistance CONFIG
   \<and> pairDist (particleAt 0 0 0 0) (particleAt 0 0 1 1) = 0
   \<and> pairDist (particleAt 0 120 0 0) (particleAt 0 0 1 1) = connectDistance CONFIG
   \<and> filter isLine (render CONFIG threeParticles) = [StrokeLine (Rgba 0 245 255 0.1) 0.5 0 0 0 0]
   \<and> drawLine CONFIG (particleAt 0 0 0 0) (particleAt 0 120 0 0) (connectDistance CONFIG)
        = StrokeLine (Rgba 0 245 255 0) 0.5 0 0 0 120
   \<and> drawLine CONFIG (particleAt 0 0 0 0) (particleAt 0 0 1 1) 0
        = StrokeLine (Rgba 0 245 255 (lineAlpha CONFIG)) 0.5 0 0 0 0"
proof -
  have la: "0 \<le> lineAlpha CONFIG"
    by (simp add: CONFIG_def)
  have d: "pairDist (particleAt 0 0 0 0) (particleAt 0 120 0 0) = 120"
    "pairDist (particleAt 0 0 0 0) (particleAt 0 0 1 1) = 0"
    "pairDist (particleAt 0 120 0 0) (particleAt 0 0 1 1) = 120"
    by (simp_all add: pairDist_def particleAt_def Let_def sqrt_14400)
  have ps: "particles threeParticles = [particleAt 0 0 0 0, particleAt 0 120 0 0, particleAt 0 0 1 1]"
    by (simp add: threeParticles_def)
  have len: "length (particles threeParticles) = 3"
    by (simp add: ps)
  have c: "connectDistance CONFIG = 120" "lineAlpha CONFIG = 0.1" "color CONFIG = (0, 245, 255)"
    by (simp_all add: CONFIG_def)
  have pos: "p_x (particleAt x y va vb) = x" "p_y (particleAt x y va vb) = y" for x y va vb
    by (simp_all add: particleAt_def)
  note far = render_lines [OF la, of threeParticles 3 "particleAt 0 0 0 0" "particleAt 0 120 0 0"]
  note same = render_lines [OF la, of threeParticles 3 "particleAt 0 0 0 0" "particleAt 0 0 1 1"]
  have r1: "filter isLine (render CONFIG threeParticles) = [StrokeLine (Rgba 0 245 255 0.1) 0.5 0 0 0 0]"
    using far [THEN conjunct1] unfolding len indexPairs_3
    by (simp add: ps d c lineBetween_def rgba_def pos)
  have r2: "drawLine CONFIG (particleAt 0 0 0 0) (particleAt 0 120 0 0) (connectDistance CONFIG)
        = StrokeLine (Rgba 0 245 255 0) 0.5 0 0 0 120"
    using far by (simp add: c rgba_def pos)
  have r3: "drawLine CONFIG (particleAt 0 0 0 0) (particleAt 0 0 1 1) 0
        = StrokeLine (Rgba 0 245 255 (lineAlpha CONFIG)) 0.5 0 0 0 0"
    using same by (simp add: c rgba_def pos)
  show ?thesis
    using la d r1 r2 r3 unfolding c by blast
qed

subsection \<open>The pointer's velocity is never read\<close>

lemma eraseVelocity_fields [simp]:
  "particles (eraseVelocity s) = particles s" "width (eraseVelocity s) = width s"
  "height (eraseVelocity s) = height s" "isRunning (eraseVelocity s) = isRunning s"
  "rafQueue (eraseVelocity s) = rafQueue s" "rafMouse (eraseVelocity s) = rafMouse s"
  "m_active (mouse (eraseVelocity s)) = m_active (mouse s)"
  "m_x (mouse (eraseVelocity s)) = m_x (mouse s)" "m_y (mouse (eraseVelocity s)) = m_y (mouse s)"
  by (simp_all add: eraseVelocity_def)

lemma mouseDist_pointer:
  assumes "m_x m = m_x m'" and "m_y m = m_y m'"
  shows "mouseDist m p = mouseDist m' p"
  unfolding mouseDist_def assms ..

lemma applyForce_pointer:
  assumes "m_x m = m_x m'" and "m_y m = m_y m'"
  shows "applyForce cfg m p = applyForce cfg m' p"
  unfolding applyForce_def assms ..

lemma updateParticle_pointer:
  assumes "m_active m = m_active m'" and "m_x m = m_x m'" and "m_y m = m_y m'"
  shows "updateParticle cfg w h m p = updateParticle cfg w h m' p"
  unfolding updateParticle_def mouseInteraction_def
    mouseDist_pointer [OF assms(2,3)] applyForce_pointer [OF assms(2,3)] assms(1,2) ..

lemma mouseHalo_pointer:
  assumes "m_active m = m_active m'" and "m_x m = m_x m'" and "m_y m = m_y m'"
  shows "mouseHalo cfg m = mouseHalo cfg m'"
  unfolding mouseHalo_def assms ..

lemma erase_eqD:
  assumes "eraseVelocity s = eraseVelocity t"
  shows "particles s = particles t" "width s = width t" "height s = height t"
    "isRunning s = isRunning t" "rafQueue s = rafQueue t" "rafMouse s = rafMouse t"
    "m_active (mouse s) = m_active (mouse t)" "m_x (mouse s) = m_x (mouse t)"
    "m_y (mouse s) = m_y (mouse t)"
  using arg_cong [OF assms, of particles] arg_cong [OF assms, of width] arg_cong [OF assms, of height]
    arg_cong [OF assms, of isRunning] arg_cong [OF assms, of rafQueue] arg_cong [OF assms, of rafMouse]
    arg_cong [OF assms, of "\<lambda>u. m_active (mouse u)"] arg_cong [OF assms, of "\<lambda>u. m_x (mouse u)"]
    arg_cong [OF assms, of "\<lambda>u. m_y (mouse u)"]
  by simp_all

lemma update_erase: "eraseVelocity (update cfg s) = update cfg (eraseVelocity s)"
  by (simp add: update_def eraseVelocity_def
      updateParticle_pointer [of "mouse s" "(mouse s)\<lparr>m_vx := 0, m_vy := 0\<rparr>"])

lemma render_erase: "render cfg (eraseVelocity s) = render cfg s"
  by (simp add: render_def clear_def
      mouseHalo_pointer [of "mouse (eraseVelocity s)" "mouse s"])

lemma loop_erase:
  "eraseVelocity (fst (loop cfg s)) = fst (loop cfg (eraseVelocity s))"
  "snd (loop cfg s) = snd (loop cfg (eraseVelocity s))"
proof -
  have r: "render cfg (update cfg (eraseVelocity s)) = render cfg (update cfg s)"
    unfolding update_erase [symmetric] by (rule render_erase)
  show "eraseVelocity (fst (loop cfg s)) = fst (loop cfg (eraseVelocity s))"
    by (cases "isRunning s")
      (simp_all add: loop_running loop_paused update_erase [symmetric], simp add: eraseVelocity_def)
  show "snd (loop cfg s) = snd (loop cfg (eraseVelocity s))"
    by (cases "isRunning s") (simp_all add: loop_running loop_paused r)
qed

lemma eraseVelocity_idem [simp]: "eraseVelocity (eraseVelocity s) = eraseVelocity s"
  by (simp add: eraseVelocity_def)

text \<open>Each handler, run on the state with the pointer's velocity erased, gives the
  result of the handler with the velocity erased.\<close>

lemma onMouseMove_erase:
  "eraseVelocity (onMouseMove cx cy l t (eraseVelocity s)) = eraseVelocity (onMouseMove cx cy l t s)"
  by (simp add: onMouseMove_def eraseVelocity_def Let_def requestAnimationFrame_def)

lemma onMouseLeave_erase:
  "eraseVelocity (onMouseLeave (eraseVelocity s)) = eraseVelocity (onMouseLeave s)"
  by (simp add: onMouseLeave_def eraseVelocity_def)

lemma onTouchMove_erase:
  "eraseVelocity (onTouchMove ts l t (eraseVelocity s)) = eraseVelocity (onTouchMove ts l t s)"
  by (simp add: onTouchMove_def onMouseMove_erase split: option.splits list.splits prod.splits)

lemma resize_erase:
  "eraseVelocity (resize cfg rng vp (eraseVelocity s)) = eraseVelocity (resize cfg rng vp s)"
  by (simp add: resize_eq reconcile_def pushParticles_eq eraseVelocity_def)

lemma loop_erase':
  "eraseVelocity (fst (loop cfg (eraseVelocity s))) = eraseVelocity (fst (loop cfg s))"
  "snd (loop cfg (eraseVelocity s)) = snd (loop cfg s)"
  by (simp_all add: loop_erase [symmetric])

lemma onVisibilityChange_erase:
  "eraseVelocity (fst (onVisibilityChange cfg v (eraseVelocity s)))
     = eraseVelocity (fst (onVisibilityChange cfg v s))"
  "snd (onVisibilityChange cfg v (eraseVelocity s)) = snd (onVisibilityChange cfg v s)"
proof -
  have e: "(eraseVelocity s)\<lparr>isRunning := b\<rparr> = eraseVelocity (s\<lparr>isRunning := b\<rparr>)" for b
    by (simp add: eraseVelocity_def)
  show "eraseVelocity (fst (onVisibilityChange cfg v (eraseVelocity s)))
     = eraseVelocity (fst (onVisibilityChange cfg v s))"
    and "snd (onVisibilityChange cfg v (eraseVelocity s)) = snd (onVisibilityChange cfg v s)"
    by (simp_all add: onVisibilityChange_eq e loop_erase')
qed

lemma eraseVelocity_rafMouse:
  "eraseVelocity (u\<lparr>rafMouse := v\<rparr>) = (eraseVelocity u)\<lparr>rafMouse := v\<rparr>"
  by (cases u) (simp add: eraseVelocity_def)

lemma eraseVelocity_rafQueue:
  "eraseVelocity (u\<lparr>rafQueue := v\<rparr>) = (eraseVelocity u)\<lparr>rafQueue := v\<rparr>"
  by (cases u) (simp add: eraseVelocity_def)

lemma runCallback_erase:
  assumes "eraseVelocity (fst acc) = eraseVelocity (fst acc')" and "snd acc = snd acc'"
  shows "eraseVelocity (fst (runCallback cfg acc cb)) = eraseVelocity (fst (runCallback cfg acc' cb))"
    and "snd (runCallback cfg acc cb) = snd (runCallback cfg acc' cb)"
proof -
  have l: "eraseVelocity (fst (loop cfg (fst acc))) = eraseVelocity (fst (loop cfg (fst acc')))"
    "snd (loop cfg (fst acc)) = snd (loop cfg (fst acc'))"
    using loop_erase' [of cfg "fst acc"] loop_erase' [of cfg "fst acc'"] assms(1) by simp_all
  have m: "eraseVelocity ((fst acc)\<lparr>rafMouse := None\<rparr>) = eraseVelocity ((fst acc')\<lparr>rafMouse := None\<rparr>)"
    unfolding eraseVelocity_rafMouse assms(1) ..
  show "eraseVelocity (fst (runCallback cfg acc cb)) = eraseVelocity (fst (runCallback cfg acc' cb))"
    and "snd (runCallback cfg acc cb) = snd (runCallback cfg acc' cb)"
    using l m assms(2) by (cases cb; simp add: runCallback_def split_beta)+
qed

lemma foldl_runCallback_erase:
  assumes "eraseVelocity (fst acc) = eraseVelocity (fst acc')" and "snd acc = snd acc'"
  shows "eraseVelocity (fst (foldl (runCallback cfg) acc cbs))
           = eraseVelocity (fst (foldl (runCallback cfg) acc' cbs))
       \<and> snd (foldl (runCallback cfg) acc cbs) = snd (foldl (runCallback cfg) acc' cbs)"
  using assms
proof (induction cbs arbitrary: acc acc')
  case Nil
  then show ?case by simp
next
  case (Cons cb cbs)
  show ?case
    using Cons.IH [OF runCallback_erase [OF Cons.prems]] by simp
qed

lemma animationFrame_erase:
  assumes "eraseVelocity s = eraseVelocity t"
  shows "eraseVelocity (fst (animationFrame cfg s)) = eraseVelocity (fst (animationFrame cfg t))
       \<and> snd (animationFrame cfg s) = snd (animationFrame cfg t)"
proof -
  have q: "rafQueue s = rafQueue t"
    using erase_eqD(5) [OF assms] .
  have "eraseVelocity (s\<lparr>rafQueue := []\<rparr>) = eraseVelocity (t\<lparr>rafQueue := []\<rparr>)"
    unfolding eraseVelocity_rafQueue assms ..
  then show ?thesis
    unfolding animationFrame_def q
    by (intro foldl_runCallback_erase) simp_all
qed

lemma step_erase:
  assumes "eraseVelocity s = eraseVelocity t"
  shows "eraseVelocity (fst (step cfg rng s e)) = eraseVelocity (fst (step cfg rng t e))
       \<and> snd (step cfg rng s e) = snd (step cfg rng t e)"
proof (cases e)
  case (VisibilityChange v)
  then show ?thesis
    using onVisibilityChange_erase [of cfg v s] onVisibilityChange_erase [of cfg v t] assms
    by simp
next
  case AnimationFrame
  then show ?thesis
    using animationFrame_erase [OF assms] by simp
next
  case (MouseMove cx cy l tp)
  then show ?thesis
    using onMouseMove_erase [of cx cy l tp s] onMouseMove_erase [of cx cy l tp t] assms by simp
next
  case MouseLeave
  then show ?thesis
    using onMouseLeave_erase [of s] onMouseLeave_erase [of t] assms by simp
next
  case (TouchMove ts l tp)
  then show ?thesis
    using onTouchMove_erase [of ts l tp s] onTouchMove_erase [of ts l tp t] assms by simp
next
  case TouchEnd
  then show ?thesis
    using onMouseLeave_erase [of s] onMouseLeave_erase [of t] assms by (simp add: onTouchEnd_def)
next
  case (ResizeTimeout vp)
  then show ?thesis
    using resize_erase [of cfg rng vp s] resize_erase [of cfg rng vp t] assms by simp
qed

lemma run_erase:
  assumes "eraseVelocity s = eraseVelocity t"
  shows "eraseVelocity (fst (run cfg rng s evs)) = eraseVelocity (fst (run cfg rng t evs))
       \<and> snd (run cfg rng s evs) = snd (run cfg rng t evs)"
  using assms
proof (induction evs arbitrary: s t)
  case Nil
  then show ?case by simp
next
  case (Cons e es)
  from step_erase [OF Cons.prems, of cfg rng e]
  have st: "eraseVelocity (fst (step cfg rng s e)) = eraseVelocity (fst (step cfg rng t e))"
    and dr: "snd (step cfg rng s e) = snd (step cfg rng t e)"
    by simp_all
  show ?case
    using Cons.IH [OF st] dr by (simp add: split_beta)
qed

lemma update_particles_erase: "particles (update cfg (eraseVelocity s)) = particles (update cfg s)"
  unfolding update_erase [symmetric] by simp

lemma onMouseMove_velocity:
  "m_vx (mouse (onMouseMove cx cy l tp s)) =
     (if m_lastX (mouse s) = None then m_vx (mouse s) else cx - l - to_number (m_lastX (mouse s)))"
  "m_vy (mouse (onMouseMove cx cy l tp s)) =
     (if m_lastX (mouse s) = None then m_vy (mouse s) else cy - tp - to_number (m_lastY (mouse s)))"
  by (simp_all add: onMouseMove_def Let_def requestAnimationFrame_def to_number_def)

text \<open>
  Claim C10. Let two states differ at most in the pointer's \<open>vx\<close> and \<open>vy\<close>. Then
  \<open>update\<close> gives the same particles and \<open>render\<close> the same drawing, and under the same
  events and random draws the two runs draw the same, end with the same particles, and
  end in states that again differ at most in \<open>vx\<close> and \<open>vy\<close>. The move handler writes
  both fields, from the new and the last position, when a last position is known.
\<close>

theorem pointer_velocity_unread:
  assumes "eraseVelocity s = eraseVelocity t"
  shows "particles (update cfg s) = particles (update cfg t)
       \<and> render cfg s = render cfg t
       \<and> particles (fst (run cfg rng s evs)) = particles (fst (run cfg rng t evs))
       \<and> snd (run cfg rng s evs) = snd (run cfg rng t evs)
       \<and> eraseVelocity (fst (run cfg rng s evs)) = eraseVelocity (fst (run cfg rng t evs))
       \<and> m_vx (mouse (onMouseMove cx cy l tp s)) =
            (if m_lastX (mouse s) = None then m_vx (mouse s) else cx - l - to_number (m_lastX (mouse s)))
       \<and> m_vy (mouse (onMouseMove cx cy l tp s)) =
            (if m_lastX (mouse s) = None then m_vy (mouse s) else cy - tp - to_number (m_lastY (mouse s)))"
proof -
  have "particles (update cfg s) = particles (update cfg t)"
    using update_particles_erase [of cfg s] update_particles_erase [of cfg t] assms by simp
  moreover have "render cfg s = render cfg t"
    using render_erase [of cfg s] render_erase [of cfg t] assms by simp
  moreover note run_erase [OF assms, of cfg rng evs]
  moreover have "particles (fst (run cfg rng s evs)) = particles (fst (run cfg rng t evs))"
    using erase_eqD(1) [OF run_erase [OF assms, of cfg rng evs, THEN conjunct1]] .
  ultimately show ?thesis
    by (simp add: onMouseMove_velocity)
qed

theorem pointer_velocity_unread_witness:
  "eraseVelocity (pointerField 0 0) = eraseVelocity (pointerField 7 (- 3))
   \<and> m_vx (mouse (pointerField 0 0)) = 0 \<and> m_vx (mouse (pointerField 7 (- 3))) = 7
   \<and> m_vy (mouse (pointerField 0 0)) = 0 \<and> m_vy (mouse (pointerField 7 (- 3))) = - 3
   \<and> particles (update CONFIG (pointerField 0 0)) = particles (update CONFIG (pointerField 7 (- 3)))
   \<and> render CONFIG (pointerField 0 0) = render CONFIG (pointerField 7 (- 3))
   \<and> particles (fst (run CONFIG halfDraws (pointerField 0 0)
         [VisibilityChange True, MouseMove 5 5 0 0, AnimationFrame]))
       = particles (fst (run CONFIG halfDraws (pointerField 7 (- 3))
         [VisibilityChange True, MouseMove 5 5 0 0, AnimationFrame]))
   \<and> snd (run CONFIG halfDraws (pointerField 0 0)
         [VisibilityChange True, MouseMove 5 5 0 0, AnimationFrame])
       = snd (run CONFIG halfDraws (pointerField 7 (- 3))
         [VisibilityChange True, MouseMove 5 5 0 0, AnimationFrame])
   \<and> m_vx (mouse (onMouseMove 5 5 0 0 (pointerField 0 0))) = 4
   \<and> m_vy (mouse (onMouseMove 5 5 0 0 (pointerField 0 0))) = 4"
proof -
  have e: "eraseVelocity (pointerField 0 0) = eraseVelocity (pointerField 7 (- 3))"
    by (simp add: eraseVelocity_def pointerField_def)
  have v: "m_vx (mouse (pointerField 0 0)) = 0" "m_vx (mouse (pointerField 7 (- 3))) = 7"
    "m_vy (mouse (pointerField 0 0)) = 0" "m_vy (mouse (pointerField 7 (- 3))) = - 3"
    "m_lastX (mouse (pointerField 0 0)) = Some 1" "m_lastY (mouse (pointerField 0 0)) = Some 1"
    by (simp_all add: pointerField_def pointerAt_def)
  note unread = pointer_velocity_unread [OF e, where cfg = CONFIG and rng = halfDraws
      and evs = "[VisibilityChange True, MouseMove 5 5 0 0, AnimationFrame]"
      and cx = 5 and cy = 5 and l = 0 and tp = 0]
  have w: "m_vx (mouse (onMouseMove 5 5 0 0 (pointerField 0 0))) = 4"
    "m_vy (mouse (onMouseMove 5 5 0 0 (pointerField 0 0))) = 4"
    using unread unfolding v by (auto simp add: to_number_def)
  show ?thesis
    using unread e v(1-4) w by blast
qed

subsection \<open>Pause and resume\<close>

lemma foldl_runCallback_paused:
  assumes "\<not> isRunning (fst acc)"
  shows "snd (foldl (runCallback cfg) acc cbs) = snd acc
       \<and> \<not> isRunning (fst (foldl (runCallback cfg) acc cbs))
       \<and> particles (fst (foldl (runCallback cfg) acc cbs)) = particles (fst acc)
       \<and> rafQueue (fst (foldl (runCallback cfg) acc cbs)) = rafQueue (fst acc)
       \<and> width (fst (foldl (runCallback cfg) acc cbs)) = width (fst acc)
       \<and> height (fst (foldl (runCallback cfg) acc cbs)) = height (fst acc)"
  using assms
proof (induction cbs arbitrary: acc)
  case Nil
  then show ?case by simp
next
  case (Cons cb cbs)
  have one: "snd (runCallback cfg acc cb) = snd acc
       \<and> \<not> isRunning (fst (runCallback cfg acc cb))
       \<and> particles (fst (runCallback cfg acc cb)) = particles (fst acc)
       \<and> rafQueue (fst (runCallback cfg acc cb)) = rafQueue (fst acc)
       \<and> width (fst (runCallback cfg acc cb)) = width (fst acc)
       \<and> height (fst (runCallback cfg acc cb)) = height (fst acc)"
    using Cons.prems by (cases cb) (simp_all add: runCallback_def loop_paused)
  then have "\<not> isRunning (fst (runCallback cfg acc cb))"
    by simp
  from Cons.IH [OF this] one show ?case
    by simp
qed

lemma animationFrame_paused:
  assumes "\<not> isRunning s"
  shows "snd (animationFrame cfg s) = []" and "\<not> isRunning (fst (animationFrame cfg s))"
    and "particles (fst (animationFrame cfg s)) = particles s"
    and "rafQueue (fst (animationFrame cfg s)) = []"
    and "width (fst (animationFrame cfg s)) = width s"
    and "height (fst (animationFrame cfg s)) = height s"
  using foldl_runCallback_paused [of "(s\<lparr>rafQueue := []\<rparr>, [])" cfg "rafQueue s"] assms
  by (simp_all add: animationFrame_def)

lemma onMouseMove_rafQueue:
  "set (rafQueue (onMouseMove cx cy l tp s)) \<subseteq> insert MouseCallback (set (rafQueue s))"
  by (auto simp add: onMouseMove_def Let_def requestAnimationFrame_def)

lemma onTouchMove_rafQueue:
  "set (rafQueue (onTouchMove ts l tp s)) \<subseteq> insert MouseCallback (set (rafQueue s))"
  using onMouseMove_rafQueue
  by (auto simp add: onTouchMove_def split: option.splits list.splits prod.splits)

lemma step_paused_draws:
  assumes "\<not> isRunning s" and "notResume e"
  shows "snd (step cfg rng s e) = [] \<and> \<not> isRunning (fst (step cfg rng s e))"
  using assms
  by (cases e) (simp_all add: onVisibilityChange_eq animationFrame_paused onTouchEnd_def)

lemma run_paused_draws:
  assumes "\<not> isRunning s" and "list_all notResume evs"
  shows "snd (run cfg rng s evs) = [] \<and> \<not> isRunning (fst (run cfg rng s evs))"
  using assms
proof (induction evs arbitrary: s)
  case Nil
  then show ?case by simp
next
  case (Cons e es)
  from Cons.prems have e: "notResume e" and es: "list_all notResume es"
    by simp_all
  from step_paused_draws [OF Cons.prems(1) e, of cfg rng]
  have d: "snd (step cfg rng s e) = []" and p: "\<not> isRunning (fst (step cfg rng s e))"
    by simp_all
  from Cons.IH [OF p es] d show ?case
    by (simp add: split_beta)
qed

lemma step_pausedWith:
  assumes "pausedWith ps w h s" and "notResume e \<and> keepsSurface e"
  shows "pausedWith ps w h (fst (step cfg rng s e))"
  using assms
  by (cases e)
    (simp_all add: pausedWith_def onVisibilityChange_eq animationFrame_paused onTouchEnd_def)

lemma step_loopStopped:
  assumes "loopStopped s" and "notResume e"
  shows "loopStopped (fst (step cfg rng s e))"
proof (cases e)
  case (MouseMove cx cy l tp)
  then show ?thesis
    using assms onMouseMove_rafQueue [of cx cy l tp s] by (auto simp add: loopStopped_def)
next
  case (TouchMove ts l tp)
  then show ?thesis
    using assms onTouchMove_rafQueue [of ts l tp s] by (auto simp add: loopStopped_def)
next
  case (ResizeTimeout vp)
  then show ?thesis
    using assms by (simp add: loopStopped_def resize_eq reconcile_def pushParticles_eq)
qed (use assms in \<open>simp_all add: loopStopped_def onVisibilityChange_eq animationFrame_paused
      onTouchEnd_def onMouseLeave_def\<close>)

lemma run_loopStopped:
  assumes "\<not> isRunning s" and "list_all notResume evs" and "AnimationFrame \<in> set evs"
  shows "loopStopped (fst (run cfg rng s evs))"
  using assms
proof (induction evs arbitrary: s)
  case Nil
  then show ?case by simp
next
  case (Cons e es)
  from Cons.prems have e: "notResume e" and es: "list_all notResume es"
    by simp_all
  have p: "\<not> isRunning (fst (step cfg rng s e))"
    using step_paused_draws [OF Cons.prems(1) e, of cfg rng] by simp
  show ?case
  proof (cases "AnimationFrame \<in> set es")
    case True
    from Cons.IH [OF p es True] show ?thesis
      by (simp add: split_beta)
  next
    case False
    with Cons.prems(3) have "e = AnimationFrame"
      by simp
    then have "loopStopped (fst (step cfg rng s e))"
      using Cons.prems(1) by (simp add: loopStopped_def animationFrame_paused)
    then have "loopStopped (fst (run cfg rng (fst (step cfg rng s e)) es))"
      using es by (rule run_invariant) (rule step_loopStopped)
    then show ?thesis
      by (simp add: split_beta)
  qed
qed

lemma render_update_isRunning:
  "render cfg (update cfg (s\<lparr>isRunning := b\<rparr>)) = render cfg (update cfg s)"
  by (simp add: render_def update_def clear_def)

lemma resume_step:
  "snd (step cfg rng s (VisibilityChange True)) = render cfg (update cfg s)"
  "isRunning (fst (step cfg rng s (VisibilityChange True)))"
  "particles (fst (step cfg rng s (VisibilityChange True)))
     = map (updateParticle cfg (width s) (height s) (mouse s)) (particles s)"
  "LoopCallback \<in> set (rafQueue (fst (step cfg rng s (VisibilityChange True))))"
  by (simp_all add: onVisibilityChange_eq loop_running render_update_isRunning)

text \<open>
  Claim C7. Let the page become non-visible, let any events but a return to visibility
  follow, and let the page become visible again. The pause and the events in between
  draw nothing and leave the animator not running; once an animation frame has passed
  no \<open>loop\<close> callback waits any more, so \<open>loop\<close> has not rescheduled itself. When no
  resize is among the events the particles are exactly those at the pause, and the
  return to visibility runs \<open>loop\<close> at once: it updates those particles once, with the
  pointer as it then is, renders them, sets the animator running and requests the next
  frame.
\<close>

theorem pause_resume:
  assumes "list_all notResume evs"
  shows "snd (step cfg rng s (VisibilityChange False)) = []
       \<and> \<not> isRunning (fst (step cfg rng s (VisibilityChange False)))
       \<and> particles (fst (step cfg rng s (VisibilityChange False))) = particles s
       \<and> snd (run cfg rng (fst (step cfg rng s (VisibilityChange False))) evs) = []
       \<and> \<not> isRunning (fst (run cfg rng (fst (step cfg rng s (VisibilityChange False))) evs))
       \<and> (AnimationFrame \<in> set evs \<longrightarrow>
            LoopCallback \<notin> set (rafQueue (fst (run cfg rng (fst (step cfg rng s (VisibilityChange False))) evs))))
       \<and> (list_all keepsSurface evs \<longrightarrow>
            particles (fst (run cfg rng (fst (step cfg rng s (VisibilityChange False))) evs)) = particles s
            \<and> particles (fst (step cfg rng
                 (fst (run cfg rng (fst (step cfg rng s (VisibilityChange False))) evs))
                 (VisibilityChange True)))
               = map (updateParticle cfg (width s) (height s)
                       (mouse (fst (run cfg rng (fst (step cfg rng s (VisibilityChange False))) evs))))
                   (particles s))
       \<and> isRunning (fst (step cfg rng
            (fst (run cfg rng (fst (step cfg rng s (VisibilityChange False))) evs))
            (VisibilityChange True)))
       \<and> LoopCallback \<in> set (rafQueue (fst (step cfg rng
            (fst (run cfg rng (fst (step cfg rng s (VisibilityChange False))) evs))
            (VisibilityChange True))))
       \<and> snd (step cfg rng
            (fst (run cfg rng (fst (step cfg rng s (VisibilityChange False))) evs))
            (VisibilityChange True))
          = render cfg (update cfg (fst (run cfg rng (fst (step cfg rng s (VisibilityChange False))) evs)))"
proof -
  let ?s1 = "fst (step cfg rng s (VisibilityChange False))"
  let ?s2 = "fst (run cfg rng ?s1 evs)"
  have s1: "?s1 = s\<lparr>isRunning := False\<rparr>" and d1: "snd (step cfg rng s (VisibilityChange False)) = []"
    by (simp_all add: onVisibilityChange_eq)
  have p1: "\<not> isRunning ?s1"
    unfolding s1 by simp
  note quiet = run_paused_draws [OF p1 assms, of cfg rng]
  have stopped: "LoopCallback \<notin> set (rafQueue ?s2)" if "AnimationFrame \<in> set evs"
    using run_loopStopped [OF p1 assms that, of cfg rng] by (simp add: loopStopped_def)
  have same: "particles ?s2 = particles s \<and> width ?s2 = width s \<and> height ?s2 = height s"
    if "list_all keepsSurface evs"
  proof -
    have "pausedWith (particles s) (width s) (height s) ?s1"
      unfolding s1 by (simp add: pausedWith_def)
    moreover have "list_all (\<lambda>e. notResume e \<and> keepsSurface e) evs"
      using assms that by (simp add: list_all_iff)
    ultimately have "pausedWith (particles s) (width s) (height s) ?s2"
      by (rule run_invariant) (rule step_pausedWith)
    then show ?thesis
      by (simp add: pausedWith_def)
  qed
  have p0: "particles ?s1 = particles s"
    unfolding s1 by simp
  show ?thesis
    using d1 p1 p0 quiet stopped same resume_step [of cfg rng ?s2]
    by metis
qed

theorem pause_resume_witness:
  "list_all notResume [AnimationFrame, MouseMove 5 5 0 0, AnimationFrame]
   \<and> list_all keepsSurface [AnimationFrame, MouseMove 5 5 0 0, AnimationFrame]
   \<and> AnimationFrame \<in> set [AnimationFrame, MouseMove 5 5 0 0, AnimationFrame]
   \<and> isRunning (started CONFIG halfDraws refViewport 1 300 150 0)
   \<and> LoopCallback \<in> set (rafQueue (started CONFIG halfDraws refViewport 1 300 150 0))
   \<and> length (particles (started CONFIG halfDraws refViewport 1 300 150 0)) = 60
   \<and> snd (run CONFIG halfDraws
        (fst (step CONFIG halfDraws (started CONFIG halfDraws refViewport 1 300 150 0) (VisibilityChange False)))
        [AnimationFrame, MouseMove 5 5 0 0, AnimationFrame]) = []
   \<and> LoopCallback \<notin> set (rafQueue (fst (run CONFIG halfDraws
        (fst (step CONFIG halfDraws (started CONFIG halfDraws refViewport 1 300 150 0) (VisibilityChange False)))
        [AnimationFrame, MouseMove 5 5 0 0, AnimationFrame])))
   \<and> particles (fst (run CONFIG halfDraws
        (fst (step CONFIG halfDraws (started CONFIG halfDraws refViewport 1 300 150 0) (VisibilityChange False)))
        [AnimationFrame, MouseMove 5 5 0 0, AnimationFrame]))
       = particles (started CONFIG halfDraws refViewport 1 300 150 0)
   \<and> particles (fst (step CONFIG halfDraws
        (fst (run CONFIG halfDraws
           (fst (step CONFIG halfDraws (started CONFIG halfDraws refViewport 1 300 150 0) (VisibilityChange False)))
           [AnimationFrame, MouseMove 5 5 0 0, AnimationFrame]))
        (VisibilityChange True)))
       = map (updateParticle CONFIG (width (started CONFIG halfDraws refViewport 1 300 150 0))
               (height (started CONFIG halfDraws refViewport 1 300 150 0))
               (mouse (fst (run CONFIG halfDraws
                  (fst (step CONFIG halfDraws (started CONFIG halfDraws refViewport 1 300 150 0)
                     (VisibilityChange False)))
                  [AnimationFrame, MouseMove 5 5 0 0, AnimationFrame]))))
           (particles (started CONFIG halfDraws refViewport 1 300 150 0))
   \<and> LoopCallback \<in> set (rafQueue (fst (step CONFIG halfDraws
        (fst (run CONFIG halfDraws
           (fst (step CONFIG halfDraws (started CONFIG halfDraws refViewport 1 300 150 0) (VisibilityChange False)))
           [AnimationFrame, MouseMove 5 5 0 0, AnimationFrame]))
        (VisibilityChange True))))"
proof -
  have quiet: "list_all notResume [AnimationFrame, MouseMove 5 5 0 0, AnimationFrame]"
    and surface: "list_all keepsSurface [AnimationFrame, MouseMove 5 5 0 0, AnimationFrame]"
    and frame: "AnimationFrame \<in> set [AnimationFrame, MouseMove 5 5 0 0, AnimationFrame]"
    by simp_all
  have running: "isRunning (started CONFIG halfDraws refViewport 1 300 150 0)"
    and queued: "LoopCallback \<in> set (rafQueue (started CONFIG halfDraws refViewport 1 300 150 0))"
    by (simp_all add: started_def init_def loop_running initial_def)
  have len: "length (particles (started CONFIG halfDraws refViewport 1 300 150 0)) = 60"
    by (simp add: started_length targetCount_ref)
  show ?thesis
    using pause_resume [OF quiet, of CONFIG halfDraws "started CONFIG halfDraws refViewport 1 300 150 0"]
      quiet surface frame running queued len
    by blast
qed

subsection \<open>A page without the canvas\<close>

text \<open>
  Claim C6, on a page without the element \<open>particles\<close>. The animator's own function
  returns at once and builds no state; but the script reaches it only after the first
  engine, whose \<open>canvas.getContext('2d')\<close> on \<open>null\<close> throws a \<open>TypeError\<close> at the top
  level, so the script ends with that error.
\<close>

theorem script_without_canvas:
  "scriptParticles (hst\<lparr>particlesCanvas := None\<rparr>) rng = Inl TypeError
   \<and> particleSystem (hst\<lparr>particlesCanvas := None\<rparr>) rng k = None"
  by (simp add: scriptParticles_def firstEngine_def particleSystem_def)

theorem script_without_canvas_witness:
  "scriptParticles barePage halfDraws = Inl TypeError \<and> particleSystem barePage halfDraws 0 = None"
  using script_without_canvas [of barePage halfDraws 0]
  by (simp add: barePage_def)

lemma script_with_canvas:
  "\<exists>e1 a. scriptParticles (hst\<lparr>particlesCanvas := Some c\<rparr>) rng = Inr (e1, Some a)"
  by (simp add: scriptParticles_def firstEngine_def particleSystem_def Let_def)

end
